theory Spec2Isabelle
  imports
    Complex_Main
    "HOL-Library.AList"
    "HOL-Library.Char_ord"
    "HOL-Library.List_Lexorder"
    "HOL-Library.Product_Lexorder"
begin

section \<open>Data model\<close>

text \<open>
  Modelled from the spec: the type declarations of the collector (\<open>types.ts\<close>) are
  missing from the sources; the records below follow the data model of section 3 and the
  field accesses of \<open>Storage.ts\<close> and of the collector. Field names are those of the program; where two
  record types share a field name the later one carries a short prefix
  (\<open>de_\<close> daily entry, \<open>dd_\<close> daily file, \<open>dc_\<close> device configuration,
  \<open>dm_\<close> device metadata, \<open>cr_\<close> collection result).
  Strings are ordered lexicographically, which on \<open>YYYY-MM-DD\<close> dates is the
  chronological order.
\<close>

record TrafficDataPoint =
  date :: string
  hour :: nat
  uptime :: real
  heavy :: int
  car :: int
  bike :: int
  pedestrian :: int
  heavy_lft :: int
  heavy_rgt :: int
  car_lft :: int
  car_rgt :: int
  bike_lft :: int
  bike_rgt :: int
  pedestrian_lft :: int
  pedestrian_rgt :: int
  direction :: int
  timezone :: string
  v85 :: "real option"

record MonthlyData =
  device_id :: string
  month :: string
  data :: "TrafficDataPoint list"
  lastUpdated :: string

record DailyEntry =
  de_date :: string
  de_heavy :: int
  de_car :: int
  de_bike :: int
  de_pedestrian :: int
  de_uptime :: real
  hours_covered :: nat

record DailyData =
  dd_device_id :: string
  dd_month :: string
  days :: "DailyEntry list"
  dd_lastUpdated :: string

section \<open>DataMerger\<close>

text \<open>
  A JavaScript \<open>Map\<close> keeps its entries in insertion order and overwrites the value of a
  key that is already present without moving it: an association list under
  \<^const>\<open>AList.update\<close>.
\<close>

definition upsertAll :: "('a \<Rightarrow> 'k) \<Rightarrow> ('k \<times> 'a) list \<Rightarrow> 'a list \<Rightarrow> ('k \<times> 'a) list" where
  "upsertAll key m xs = foldl (\<lambda>acc x. AList.update (key x) x acc) m xs"

text \<open>
  Modelled from the spec: \<open>DataMerger.ts\<close> is missing from the sources. The merge of
  section 4.1: a keyed map is built from \<open>existing\<close>, every item of \<open>incoming\<close>, in
  order, overwrites the map entry at its key, and all entries are returned sorted
  ascending by key.
\<close>

definition mergeByKey :: "('a \<Rightarrow> 'k::linorder) \<Rightarrow> 'a list \<Rightarrow> 'a list \<Rightarrow> 'a list" where
  "mergeByKey key existing incoming =
     sort_key key (map snd (upsertAll key (upsertAll key [] existing) incoming))"

text \<open>The natural key of a reading: its date and hour.\<close>

definition pointKey :: "TrafficDataPoint \<Rightarrow> string \<times> nat" where
  "pointKey p = (date p, hour p)"

text \<open>
  Modelled from the spec: \<open>DataMerger.mergeDataPoints\<close> (the spec's \<open>mergeReadings\<close>),
  missing from the sources; \<open>Storage.saveMonthlyData\<close> calls it with the device id first.
\<close>

definition mergeDataPoints ::
  "string \<Rightarrow> TrafficDataPoint list \<Rightarrow> TrafficDataPoint list \<Rightarrow> TrafficDataPoint list" where
  "mergeDataPoints deviceId existing incoming = mergeByKey pointKey existing incoming"

text \<open>
  Modelled from the spec: \<open>DataMerger.mergeDailyEntries\<close>, missing from the sources: the
  same last-write-wins merge with the date as key, sorted ascending by date.
\<close>

definition mergeDailyEntries :: "DailyEntry list \<Rightarrow> DailyEntry list \<Rightarrow> DailyEntry list" where
  "mergeDailyEntries existing incoming = mergeByKey de_date existing incoming"

text \<open>
  The date test of the collector's \<open>getLatestDataTimestamp\<close>: a reading is skipped when
  its date is empty or when \<open>new Date(date)\<close> is not a number. The outcome of JavaScript's
  date parser is a parameter: the milliseconds of a parseable date, \<open>None\<close> otherwise.
\<close>

definition validDate :: "(string \<Rightarrow> int option) \<Rightarrow> TrafficDataPoint \<Rightarrow> bool" where
  "validDate parse p = (date p \<noteq> [] \<and> parse (date p) \<noteq> None)"

text \<open>Appends an item to the group of its key; a new key opens a group at the end.\<close>

fun groupInsert :: "'k \<Rightarrow> 'a \<Rightarrow> ('k \<times> 'a list) list \<Rightarrow> ('k \<times> 'a list) list" where
  "groupInsert k x [] = [(k, [x])]"
| "groupInsert k x ((k', g) # rest) =
     (if k = k' then (k', g @ [x]) # rest else (k', g) # groupInsert k x rest)"

definition groupBy :: "('a \<Rightarrow> 'k) \<Rightarrow> 'a list \<Rightarrow> ('k \<times> 'a list) list" where
  "groupBy key xs = foldl (\<lambda>acc x. groupInsert (key x) x acc) [] xs"

text \<open>
  Modelled from the spec: \<open>DataMerger.groupByMonth\<close>, missing from the sources. The month
  key is the first 7 characters of the date, the order within a group is the order of
  the input, and readings with an unparseable date are excluded from the grouping
  (section 4.1, edge cases).
\<close>

definition groupByMonth ::
  "(string \<Rightarrow> int option) \<Rightarrow> TrafficDataPoint list \<Rightarrow> (string \<times> TrafficDataPoint list) list" where
  "groupByMonth parse readings =
     groupBy (\<lambda>p. take 7 (date p)) (filter (validDate parse) readings)"

text \<open>
  Modelled from the spec: \<open>DataMerger.buildDailyEntries\<close>, missing from the sources. The
  readings are grouped by date; each date gives one entry with the sums of the counts,
  the number of hours present and the mean uptime; entries ascend by date; readings
  with an unparseable date are excluded.
\<close>

definition dailyEntryOf :: "string \<times> TrafficDataPoint list \<Rightarrow> DailyEntry" where
  "dailyEntryOf dg =
     \<lparr>de_date = fst dg,
      de_heavy = sum_list (map heavy (snd dg)),
      de_car = sum_list (map car (snd dg)),
      de_bike = sum_list (map bike (snd dg)),
      de_pedestrian = sum_list (map pedestrian (snd dg)),
      de_uptime = sum_list (map uptime (snd dg)) / real (length (snd dg)),
      hours_covered = length (remdups (map hour (snd dg)))\<rparr>"

definition buildDailyEntriesOf ::
  "(string \<Rightarrow> int option) \<Rightarrow> TrafficDataPoint list \<Rightarrow> DailyEntry list" where
  "buildDailyEntriesOf parse readings =
     sort_key de_date (map dailyEntryOf (groupBy date (filter (validDate parse) readings)))"

section \<open>Errors\<close>

text \<open>
  What the program throws: a file system error with its \<open>code\<close> and path, the client's
  \<open>TelraamApiError\<close> with its optional status code and message, a plain \<open>Error\<close> with
  its message, and a \<open>TypeError\<close>. All of them are instances of \<open>Error\<close>.
\<close>

datatype exn =
    FsError string string
  | TelraamApiError "nat option" string
  | Error string
  | TypeError string

fun message :: "exn \<Rightarrow> string" where
  "message (FsError code path) = code @ '': '' @ path"
| "message (TelraamApiError status msg) = msg"
| "message (Error msg) = msg"
| "message (TypeError msg) = msg"

fun string_of_nat :: "nat \<Rightarrow> string" where
  "string_of_nat n =
     (if n < 10 then [''0123456789'' ! n]
      else string_of_nat (n div 10) @ [''0123456789'' ! (n mod 10)])"

declare string_of_nat.simps [simp del]

section \<open>Devices, results and the environment of a run\<close>

text \<open>
  Modelled from the spec: \<open>DeviceConfig\<close>, \<open>DeviceMetadata\<close>, \<open>CollectionResult\<close> and
  \<open>CollectionSummary\<close> are declared in the missing \<open>types.ts\<close>; their fields are the ones
  the collector reads and writes. A missing \<open>lastUpdated\<close> or \<open>error\<close> of a result is
  \<open>None\<close>.
\<close>

record DeviceConfig =
  dc_id :: string
  dc_name :: string
  dc_location :: string

record DeviceMetadata =
  dm_id :: string
  dm_name :: string
  dm_location :: string
  dm_lastUpdated :: string
  totalDataPoints :: nat

record CollectionResult =
  deviceId :: string
  success :: bool
  dataPointsCollected :: nat
  cr_lastUpdated :: "string option"
  cr_error :: "string option"

record CollectionSummary =
  totalDevices :: nat
  successfulDevices :: nat
  failedDevices :: nat
  results :: "CollectionResult list"
  startTime :: string
  endTime :: string

text \<open>
  What a run takes from outside the program: the data directory given to the
  \<open>PathManager\<close> and its parent as \<open>path.resolve\<close> computes it, the reading of the
  clock \<open>new Date().toISOString()\<close> (one reading for the whole run), the date parser, the
  outcome of the client's fetch for each device id (the date range is fixed for a run),
  the text of the landing page from the \<open>HTMLGenerator\<close>, and the configured devices.
  The delay between devices and the log have no effect on the results and are left out.
\<close>

record env =
  dataDir :: string
  docsRoot :: string
  now :: string
  parseDate :: "string \<Rightarrow> int option"
  fetchTrafficData :: "string \<Rightarrow> exn + TrafficDataPoint list"
  landingPage :: string
  devices :: "DeviceConfig list"

section \<open>PathManager\<close>

text \<open>\<open>path.join\<close> on segments without \<open>.\<close>, \<open>..\<close> or separators of their own.\<close>

definition pathJoin :: "string \<Rightarrow> string \<Rightarrow> string" where
  "pathJoin a b = a @ ''/'' @ b"

definition getDeviceDirectory :: "env \<Rightarrow> string \<Rightarrow> string" where
  "getDeviceDirectory e devId = pathJoin (dataDir e) (''device_'' @ devId)"

definition getHourlyDirectory :: "env \<Rightarrow> string \<Rightarrow> string" where
  "getHourlyDirectory e devId = pathJoin (getDeviceDirectory e devId) ''hourly''"

definition getHourlyFilePath :: "env \<Rightarrow> string \<Rightarrow> string \<Rightarrow> string" where
  "getHourlyFilePath e devId m =
     pathJoin (pathJoin (getDeviceDirectory e devId) ''hourly'') (m @ ''.json'')"

definition getDailyFilePath :: "env \<Rightarrow> string \<Rightarrow> string \<Rightarrow> string" where
  "getDailyFilePath e devId m =
     pathJoin (pathJoin (getDeviceDirectory e devId) ''daily'') (m @ ''.json'')"

definition getLegacyMonthlyFilePath :: "env \<Rightarrow> string \<Rightarrow> string \<Rightarrow> string" where
  "getLegacyMonthlyFilePath e devId m = pathJoin (getDeviceDirectory e devId) (m @ ''.json'')"

definition getDeviceMetadataPath :: "env \<Rightarrow> string" where
  "getDeviceMetadataPath e = pathJoin (dataDir e) ''devices.json''"

definition getLandingPagePath :: "env \<Rightarrow> string" where
  "getLandingPagePath e = pathJoin (docsRoot e) ''index.html''"

section \<open>FileService\<close>

text \<open>The JSON documents the program stores.\<close>

datatype json =
    MonthlyJson MonthlyData
  | DailyJson DailyData
  | MetadataJson "DeviceMetadata list"

text \<open>
  Modelled from the spec: \<open>FileService.ts\<close> is missing from the sources. The file
  system holds JSON documents and text documents by path (the program writes text only
  to the landing page and never reads it back). Reading raises at the paths of
  \<open>unreadable\<close>, writing and deleting raise at the paths of \<open>unwritable\<close>; a file that
  does not exist reads as \<open>null\<close> and is deleted without error; writes replace the whole
  file. A directory exists when a document lies under it; listing a directory that does
  not exist raises \<open>ENOENT\<close>.
\<close>

record filesystem =
  files :: "(string \<times> json) list"
  pages :: "(string \<times> string) list"
  unreadable :: "string set"
  unwritable :: "string set"

text \<open>Modelled from the spec: \<open>FileService.readJson\<close>; \<open>None\<close> is the \<open>null\<close> of a file
  that does not exist.\<close>

definition readJson :: "filesystem \<Rightarrow> string \<Rightarrow> exn + json option" where
  "readJson fs path =
     (if path \<in> unreadable fs then Inl (FsError ''EACCES'' path)
      else Inr (map_of (files fs) path))"

text \<open>Modelled from the spec: \<open>FileService.writeJson\<close> and \<open>writeText\<close>, whole-file
  replacement.\<close>

definition writeJson :: "filesystem \<Rightarrow> string \<Rightarrow> json \<Rightarrow> filesystem \<times> (exn + unit)" where
  "writeJson fs path v =
     (if path \<in> unwritable fs then (fs, Inl (FsError ''EACCES'' path))
      else (fs\<lparr>files := AList.update path v (files fs)\<rparr>, Inr ()))"

definition writeText :: "filesystem \<Rightarrow> string \<Rightarrow> string \<Rightarrow> filesystem \<times> (exn + unit)" where
  "writeText fs path txt =
     (if path \<in> unwritable fs then (fs, Inl (FsError ''EACCES'' path))
      else (fs\<lparr>pages := AList.update path txt (pages fs)\<rparr>, Inr ()))"

text \<open>Modelled from the spec: \<open>FileService.deleteFile\<close>.\<close>

definition deleteFile :: "filesystem \<Rightarrow> string \<Rightarrow> filesystem \<times> (exn + unit)" where
  "deleteFile fs path =
     (if map_of (files fs) path = None then (fs, Inr ())
      else if path \<in> unwritable fs then (fs, Inl (FsError ''EACCES'' path))
      else (fs\<lparr>files := AList.delete path (files fs)\<rparr>, Inr ()))"

text \<open>Modelled from the spec: \<open>FileService.collectJsonFiles\<close>, the paths of the JSON
  documents below a directory, at any depth, whose name ends in \<open>.json\<close>.\<close>

definition isUnder :: "string \<Rightarrow> string \<Rightarrow> bool" where
  "isUnder dir path = (take (length dir + 1) path = dir @ ''/'')"

definition isJsonFile :: "string \<Rightarrow> bool" where
  "isJsonFile path = (5 \<le> length path \<and> drop (length path - 5) path = ''.json'')"

definition directoryExists :: "filesystem \<Rightarrow> string \<Rightarrow> bool" where
  "directoryExists fs dir = list_ex (isUnder dir) (map fst (files fs) @ map fst (pages fs))"

definition collectJsonFiles :: "filesystem \<Rightarrow> string \<Rightarrow> exn + string list" where
  "collectJsonFiles fs dir =
     (if \<not> directoryExists fs dir then Inl (FsError ''ENOENT'' dir)
      else if dir \<in> unreadable fs then Inl (FsError ''EACCES'' dir)
      else Inr (filter (\<lambda>p. isUnder dir p \<and> isJsonFile p) (map fst (files fs))))"

section \<open>Storage\<close>

text \<open>
  Every operation takes the file system and returns it with its outcome: \<open>Inl\<close> the
  exception thrown, \<open>Inr\<close> the value returned. Reads leave the file system as it is and
  return the outcome alone. \<open>readJson\<close> is not checked against its type parameter at run
  time, so a load returns whatever document lies at the path.
\<close>

definition saveDeviceMetadata ::
  "env \<Rightarrow> filesystem \<Rightarrow> DeviceMetadata list \<Rightarrow> filesystem \<times> (exn + unit)" where
  "saveDeviceMetadata e fs devs = writeJson fs (getDeviceMetadataPath e) (MetadataJson devs)"

definition loadDeviceMetadata :: "env \<Rightarrow> filesystem \<Rightarrow> exn + json" where
  "loadDeviceMetadata e fs =
     (case readJson fs (getDeviceMetadataPath e) of
        Inl err \<Rightarrow> Inl err
      | Inr None \<Rightarrow> Inr (MetadataJson [])
      | Inr (Some d) \<Rightarrow> Inr d)"

definition generateLandingPage :: "env \<Rightarrow> filesystem \<Rightarrow> filesystem \<times> (exn + unit)" where
  "generateLandingPage e fs =
     (case collectJsonFiles fs (dataDir e) of
        Inl err \<Rightarrow> (fs, Inl err)
      | Inr jsonFiles \<Rightarrow> writeText fs (getLandingPagePath e) (landingPage e))"

definition loadMonthlyData :: "env \<Rightarrow> filesystem \<Rightarrow> string \<Rightarrow> string \<Rightarrow> exn + json option" where
  "loadMonthlyData e fs devId m =
     (case readJson fs (getHourlyFilePath e devId m) of
        Inl err \<Rightarrow> Inl err
      | Inr (Some primary) \<Rightarrow> Inr (Some primary)
      | Inr None \<Rightarrow> readJson fs (getLegacyMonthlyFilePath e devId m))"

definition removeLegacyMonthlyFile ::
  "env \<Rightarrow> filesystem \<Rightarrow> string \<Rightarrow> string \<Rightarrow> string \<Rightarrow> filesystem \<times> (exn + unit)" where
  "removeLegacyMonthlyFile e fs devId m newPath =
     (if getLegacyMonthlyFilePath e devId m = newPath then (fs, Inr ())
      else deleteFile fs (getLegacyMonthlyFilePath e devId m))"

text \<open>\<open>existingData?.data || []\<close>: the readings of a monthly document, none otherwise.\<close>

fun dataOf :: "json option \<Rightarrow> TrafficDataPoint list" where
  "dataOf (Some (MonthlyJson md)) = data md"
| "dataOf other = []"

text \<open>The body of the \<open>try\<close> block of \<open>saveMonthlyData\<close>.\<close>

definition saveMonthlyDataTry ::
  "env \<Rightarrow> filesystem \<Rightarrow> string \<Rightarrow> MonthlyData \<Rightarrow> filesystem \<times> (exn + unit)" where
  "saveMonthlyDataTry e fs devId monthlyData =
     (case loadMonthlyData e fs devId (month monthlyData) of
        Inl err \<Rightarrow> (fs, Inl err)
      | Inr existingData \<Rightarrow>
          (case writeJson fs (getHourlyFilePath e devId (month monthlyData))
                  (MonthlyJson
                     \<lparr>device_id = devId, month = month monthlyData,
                      data = mergeDataPoints devId (dataOf existingData) (data monthlyData),
                      lastUpdated = now e\<rparr>) of
             (fs1, Inl err) \<Rightarrow> (fs1, Inl err)
           | (fs1, Inr u) \<Rightarrow>
               removeLegacyMonthlyFile e fs1 devId (month monthlyData)
                 (getHourlyFilePath e devId (month monthlyData))))"

definition saveMonthlyData ::
  "env \<Rightarrow> filesystem \<Rightarrow> string \<Rightarrow> MonthlyData \<Rightarrow> filesystem \<times> (exn + unit)" where
  "saveMonthlyData e fs devId monthlyData =
     (case saveMonthlyDataTry e fs devId monthlyData of
        (fs1, Inl err) \<Rightarrow> (fs1, Inl (Error (''Failed to save monthly data: '' @ message err)))
      | (fs1, Inr u) \<Rightarrow> (fs1, Inr u))"

definition loadDailyData :: "env \<Rightarrow> filesystem \<Rightarrow> string \<Rightarrow> string \<Rightarrow> exn + json option" where
  "loadDailyData e fs devId m = readJson fs (getDailyFilePath e devId m)"

text \<open>\<open>existing?.days ?? []\<close>: the entries of a daily document, none otherwise.\<close>

fun daysOf :: "json option \<Rightarrow> DailyEntry list" where
  "daysOf (Some (DailyJson dd)) = days dd"
| "daysOf other = []"

definition saveDailyData ::
  "env \<Rightarrow> filesystem \<Rightarrow> string \<Rightarrow> string \<Rightarrow> DailyEntry list \<Rightarrow> filesystem \<times> (exn + unit)" where
  "saveDailyData e fs devId m entries =
     (case (case loadDailyData e fs devId m of
              Inl err \<Rightarrow> (fs, Inl err)
            | Inr existing \<Rightarrow>
                writeJson fs (getDailyFilePath e devId m)
                  (DailyJson
                     \<lparr>dd_device_id = devId, dd_month = m,
                      days = mergeDailyEntries (daysOf existing) entries,
                      dd_lastUpdated = now e\<rparr>)) of
        (fs1, Inl err) \<Rightarrow> (fs1, Inl (Error (''Failed to save daily data: '' @ message err)))
      | (fs1, Inr u) \<Rightarrow> (fs1, Inr u))"

definition groupDataByMonth ::
  "env \<Rightarrow> TrafficDataPoint list \<Rightarrow> (string \<times> TrafficDataPoint list) list" where
  "groupDataByMonth e dataPoints = groupByMonth (parseDate e) dataPoints"

definition buildDailyEntries :: "env \<Rightarrow> TrafficDataPoint list \<Rightarrow> DailyEntry list" where
  "buildDailyEntries e points = buildDailyEntriesOf (parseDate e) points"

text \<open>The loop of \<open>getTotalHourlyDataPoints\<close> over the listed files: a document without
  a \<open>data\<close> field, or a file that is gone, adds nothing; a failing read is thrown on.\<close>

fun sumDataPoints :: "filesystem \<Rightarrow> string list \<Rightarrow> nat \<Rightarrow> exn + nat" where
  "sumDataPoints fs [] acc = Inr acc"
| "sumDataPoints fs (filePath # rest) acc =
     (case readJson fs filePath of
        Inl err \<Rightarrow> Inl err
      | Inr (Some (MonthlyJson md)) \<Rightarrow> sumDataPoints fs rest (acc + length (data md))
      | Inr other \<Rightarrow> sumDataPoints fs rest acc)"

definition getTotalHourlyDataPoints :: "env \<Rightarrow> filesystem \<Rightarrow> string \<Rightarrow> exn + nat" where
  "getTotalHourlyDataPoints e fs devId =
     (case collectJsonFiles fs (getHourlyDirectory e devId) of
        Inl (FsError code path) \<Rightarrow>
          (if code = ''ENOENT'' then Inr 0 else Inl (FsError code path))
      | Inl err \<Rightarrow> Inl err
      | Inr fileList \<Rightarrow> sumDataPoints fs fileList 0)"

section \<open>Collector\<close>

definition formatError :: "exn \<Rightarrow> string" where
  "formatError err =
     (case err of
        TelraamApiError status msg \<Rightarrow>
          ''API Error ('' @
          (case status of None \<Rightarrow> ''unknown''
           | Some c \<Rightarrow> (if c = 0 then ''unknown'' else string_of_nat c)) @ ''): '' @ msg
      | other \<Rightarrow> message other)"

text \<open>One step of the \<open>reduce\<close> in \<open>getLatestDataTimestamp\<close>.\<close>

definition laterTimestamp ::
  "(string \<Rightarrow> int option) \<Rightarrow> string option \<Rightarrow> TrafficDataPoint \<Rightarrow> string option" where
  "laterTimestamp parse latest point =
     (if date point = [] then latest
      else (case parse (date point) of
              None \<Rightarrow> latest
            | Some pointDate \<Rightarrow>
                (case latest of
                   None \<Rightarrow> Some (date point)
                 | Some l \<Rightarrow>
                     (if l = [] then Some (date point)
                      else (case parse l of
                              None \<Rightarrow> Some (date point)
                            | Some latestDate \<Rightarrow>
                                (if pointDate > latestDate then Some (date point)
                                 else Some l))))))"

definition getLatestDataTimestamp :: "env \<Rightarrow> TrafficDataPoint list \<Rightarrow> string option" where
  "getLatestDataTimestamp e dataPoints = foldl (laterTimestamp (parseDate e)) None dataPoints"

text \<open>The loop of \<open>saveDeviceData\<close> over the month groups, in the order of the map.\<close>

fun saveMonths ::
  "env \<Rightarrow> filesystem \<Rightarrow> string \<Rightarrow> (string \<times> TrafficDataPoint list) list \<Rightarrow> nat
   \<Rightarrow> filesystem \<times> (exn + nat)" where
  "saveMonths e fs devId [] totalPoints = (fs, Inr totalPoints)"
| "saveMonths e fs devId (g # rest) totalPoints =
     (case saveMonthlyData e fs devId
             \<lparr>device_id = devId, month = fst g, data = snd g, lastUpdated = now e\<rparr> of
        (fs1, Inl err) \<Rightarrow> (fs1, Inl err)
      | (fs1, Inr u) \<Rightarrow>
          (case saveDailyData e fs1 devId (fst g) (buildDailyEntries e (snd g)) of
             (fs2, Inl err) \<Rightarrow> (fs2, Inl err)
           | (fs2, Inr u2) \<Rightarrow> saveMonths e fs2 devId rest (totalPoints + length (snd g))))"

definition saveDeviceData ::
  "env \<Rightarrow> filesystem \<Rightarrow> string \<Rightarrow> TrafficDataPoint list \<Rightarrow> filesystem \<times> (exn + nat)" where
  "saveDeviceData e fs devId dataPoints =
     saveMonths e fs devId (groupDataByMonth e dataPoints) 0"

text \<open>The result built in the \<open>catch\<close> branch of \<open>collectSingleDevice\<close>.\<close>

definition failedResult :: "DeviceConfig \<Rightarrow> exn \<Rightarrow> CollectionResult" where
  "failedResult device err =
     \<lparr>deviceId = dc_id device, success = False, dataPointsCollected = 0,
      cr_lastUpdated = None, cr_error = Some (formatError err)\<rparr>"

definition collectSingleDevice ::
  "env \<Rightarrow> filesystem \<Rightarrow> DeviceConfig \<Rightarrow> filesystem \<times> CollectionResult" where
  "collectSingleDevice e fs device =
     (case fetchTrafficData e (dc_id device) of
        Inl err \<Rightarrow> (fs, failedResult device err)
      | Inr dataPoints \<Rightarrow>
          (if length dataPoints = 0 then
             (fs, \<lparr>deviceId = dc_id device, success = True, dataPointsCollected = 0,
                   cr_lastUpdated = getLatestDataTimestamp e dataPoints, cr_error = None\<rparr>)
           else
             (case saveDeviceData e fs (dc_id device) dataPoints of
                (fs1, Inl err) \<Rightarrow> (fs1, failedResult device err)
              | (fs1, Inr totalPoints) \<Rightarrow>
                  (fs1, \<lparr>deviceId = dc_id device, success = True,
                         dataPointsCollected = totalPoints,
                         cr_lastUpdated = getLatestDataTimestamp e dataPoints,
                         cr_error = None\<rparr>))))"

definition createSummary :: "CollectionResult list \<Rightarrow> string \<Rightarrow> string \<Rightarrow> CollectionSummary" where
  "createSummary rs start fin =
     \<lparr>totalDevices = length rs,
      successfulDevices = length (filter success rs),
      failedDevices = length (filter (\<lambda>r. \<not> success r) rs),
      results = rs, startTime = start, endTime = fin\<rparr>"

text \<open>The metadata entry of a device: its last update is the latest timestamp of this
  run's readings, else the one stored by the previous run, else the current time.\<close>

definition metadataEntry ::
  "env \<Rightarrow> (string \<Rightarrow> DeviceMetadata option) \<Rightarrow> DeviceConfig \<Rightarrow> CollectionResult \<Rightarrow> nat
   \<Rightarrow> DeviceMetadata" where
  "metadataEntry e previousMetadataById device result totalStoredPoints =
     \<lparr>dm_id = dc_id device, dm_name = dc_name device, dm_location = dc_location device,
      dm_lastUpdated =
        (case cr_lastUpdated result of
           Some t \<Rightarrow> t
         | None \<Rightarrow>
             (case previousMetadataById (dc_id device) of
                Some prev \<Rightarrow> dm_lastUpdated prev
              | None \<Rightarrow> now e)),
      totalDataPoints = totalStoredPoints\<rparr>"

text \<open>The \<open>for\<close> loop of \<open>collectAllDevices\<close>, with the two lists it fills.\<close>

fun collectLoop ::
  "env \<Rightarrow> (string \<Rightarrow> DeviceMetadata option) \<Rightarrow> filesystem \<Rightarrow> DeviceConfig list
   \<Rightarrow> CollectionResult list \<Rightarrow> DeviceMetadata list
   \<Rightarrow> filesystem \<times> (exn + CollectionResult list \<times> DeviceMetadata list)" where
  "collectLoop e prev fs [] rs deviceMetadata = (fs, Inr (rs, deviceMetadata))"
| "collectLoop e prev fs (device # rest) rs deviceMetadata =
     (case collectSingleDevice e fs device of
        (fs1, result) \<Rightarrow>
          (case getTotalHourlyDataPoints e fs1 (dc_id device) of
             Inl err \<Rightarrow> (fs1, Inl err)
           | Inr totalStoredPoints \<Rightarrow>
               collectLoop e prev fs1 rest (rs @ [result])
                 (deviceMetadata @ [metadataEntry e prev device result totalStoredPoints])))"

text \<open>\<open>new Map(existingMetadata.map((meta) => [meta.id, meta]))\<close>: a later entry of an
  id replaces an earlier one.\<close>

definition previousMetadataById :: "DeviceMetadata list \<Rightarrow> string \<Rightarrow> DeviceMetadata option" where
  "previousMetadataById existingMetadata = map_of (rev (map (\<lambda>meta. (dm_id meta, meta)) existingMetadata))"

text \<open>
  \<open>collectAllDevices\<close> up to and including \<open>createSummary\<close>: the prior metadata is loaded,
  the devices are processed in order, the metadata list and the landing page are
  written and the summary is built.
\<close>

definition runCollection :: "env \<Rightarrow> filesystem \<Rightarrow> filesystem \<times> (exn + CollectionSummary)" where
  "runCollection e fs =
     (case loadDeviceMetadata e fs of
        Inl err \<Rightarrow> (fs, Inl err)
      | Inr (MetadataJson existingMetadata) \<Rightarrow>
          (case collectLoop e (previousMetadataById existingMetadata) fs (devices e) [] [] of
             (fs1, Inl err) \<Rightarrow> (fs1, Inl err)
           | (fs1, Inr (rs, deviceMetadata)) \<Rightarrow>
               (case saveDeviceMetadata e fs1 deviceMetadata of
                  (fs2, Inl err) \<Rightarrow> (fs2, Inl err)
                | (fs2, Inr u) \<Rightarrow>
                    (case generateLandingPage e fs2 of
                       (fs3, Inl err) \<Rightarrow> (fs3, Inl err)
                     | (fs3, Inr u3) \<Rightarrow> (fs3, Inr (createSummary rs (now e) (now e))))))
      | Inr other \<Rightarrow> (fs, Inl (TypeError ''existingMetadata.map is not a function'')))"

text \<open>The end of \<open>collectAllDevices\<close>: the summary is returned when no device failed,
  an error is thrown otherwise.\<close>

definition collectAllDevices :: "env \<Rightarrow> filesystem \<Rightarrow> filesystem \<times> (exn + CollectionSummary)" where
  "collectAllDevices e fs =
     (case runCollection e fs of
        (fs1, Inl err) \<Rightarrow> (fs1, Inl err)
      | (fs1, Inr summary) \<Rightarrow>
          (if failedDevices summary > 0 then
             (fs1, Inl (Error (''Collection completed with '' @
                               string_of_nat (failedDevices summary) @ '' error(s)'')))
           else (fs1, Inr summary)))"

section \<open>Stored totals\<close>

text \<open>
  The monthly files stored in a device's hourly directory, and the number of readings
  they hold together: the sum of \<open>data.length\<close> over these files, stated on the file
  system and not through the reads of the program.
\<close>

definition storedMonthlyFiles :: "env \<Rightarrow> filesystem \<Rightarrow> string \<Rightarrow> (string \<times> json) list" where
  "storedMonthlyFiles e fs devId =
     filter (\<lambda>f. isUnder (getHourlyDirectory e devId) (fst f) \<and> isJsonFile (fst f)) (files fs)"

fun dataLength :: "json \<Rightarrow> nat" where
  "dataLength (MonthlyJson md) = length (data md)"
| "dataLength other = 0"

definition storedDataPoints :: "env \<Rightarrow> filesystem \<Rightarrow> string \<Rightarrow> nat" where
  "storedDataPoints e fs devId = sum_list (map (\<lambda>f. dataLength (snd f)) (storedMonthlyFiles e fs devId))"

text \<open>A file system on which no read, write or delete raises.\<close>

definition faultFree :: "filesystem \<Rightarrow> bool" where
  "faultFree fs = (unreadable fs = {} \<and> unwritable fs = {})"

section \<open>Sample data\<close>

text \<open>Synthetic values for the concrete instances below: a reading and a daily entry
  with the given date, hour and car count, every other count zero.\<close>

definition reading :: "string \<Rightarrow> nat \<Rightarrow> int \<Rightarrow> TrafficDataPoint" where
  "reading d h c =
     \<lparr>date = d, hour = h, uptime = 1, heavy = 0, car = c, bike = 0, pedestrian = 0,
      heavy_lft = 0, heavy_rgt = 0, car_lft = c, car_rgt = 0, bike_lft = 0, bike_rgt = 0,
      pedestrian_lft = 0, pedestrian_rgt = 0, direction = 1, timezone = ''Europe/Berlin'',
      v85 = None\<rparr>"

definition dailyEntry :: "string \<Rightarrow> int \<Rightarrow> DailyEntry" where
  "dailyEntry d c =
     \<lparr>de_date = d, de_heavy = 0, de_car = c, de_bike = 0, de_pedestrian = 0,
      de_uptime = 1, hours_covered = 1\<rparr>"

text \<open>A small world: a date parser that knows two days, devices named by a short id, an
  empty file system without faults, and a client that fails for device 2 and returns
  two readings of one day for every other device.\<close>

definition sampleParse :: "string \<Rightarrow> int option" where
  "sampleParse s =
     (if s = ''2024-06-01'' then Some 1717200000000
      else if s = ''2024-06-02'' then Some 1717286400000
      else None)"

definition sampleDevice :: "string \<Rightarrow> DeviceConfig" where
  "sampleDevice i = \<lparr>dc_id = i, dc_name = ''Telraam '' @ i, dc_location = ''Karlsruhe''\<rparr>"

definition sampleEnv ::
  "(string \<Rightarrow> exn + TrafficDataPoint list) \<Rightarrow> DeviceConfig list \<Rightarrow> env" where
  "sampleEnv fetch devs =
     \<lparr>dataDir = ''data'', docsRoot = ''docs'', now = ''2024-06-03T00:00:00.000Z'',
      parseDate = sampleParse, fetchTrafficData = fetch,
      landingPage = ''<html></html>'', devices = devs\<rparr>"

definition emptyFs :: filesystem where
  "emptyFs = \<lparr>files = [], pages = [], unreadable = {}, unwritable = {}\<rparr>"

definition sampleFetch :: "string \<Rightarrow> exn + TrafficDataPoint list" where
  "sampleFetch i =
     (if i = ''2'' then Inl (TelraamApiError (Some 503) ''Service Unavailable'')
      else Inr [reading ''2024-06-01'' 0 10, reading ''2024-06-01'' 1 20])"

definition noReadings :: "string \<Rightarrow> exn + TrafficDataPoint list" where
  "noReadings i = Inr []"

text \<open>A file system with stored data of device 1: two monthly files in the hourly
  directory (one and two readings), a daily file, a monthly file of April at the legacy
  location, and the metadata of the previous run.\<close>

definition sampleStore :: filesystem where
  "sampleStore =
     \<lparr>files =
        [(''data/device_1/hourly/2024-05.json'',
          MonthlyJson \<lparr>device_id = ''1'', month = ''2024-05'',
            data = [reading ''2024-05-31'' 23 7], lastUpdated = ''2024-06-01T00:00:00.000Z''\<rparr>),
         (''data/device_1/hourly/2024-06.json'',
          MonthlyJson \<lparr>device_id = ''1'', month = ''2024-06'',
            data = [reading ''2024-06-01'' 0 10, reading ''2024-06-01'' 1 20],
            lastUpdated = ''2024-06-02T00:00:00.000Z''\<rparr>),
         (''data/device_1/daily/2024-06.json'',
          DailyJson \<lparr>dd_device_id = ''1'', dd_month = ''2024-06'',
            days = [dailyEntry ''2024-06-01'' 30], dd_lastUpdated = ''2024-06-02T00:00:00.000Z''\<rparr>),
         (''data/device_1/2024-04.json'',
          MonthlyJson \<lparr>device_id = ''1'', month = ''2024-04'',
            data = [reading ''2024-04-30'' 12 3], lastUpdated = ''2024-05-01T00:00:00.000Z''\<rparr>),
         (''data/devices.json'',
          MetadataJson [\<lparr>dm_id = ''1'', dm_name = ''Telraam 1'', dm_location = ''Karlsruhe'',
            dm_lastUpdated = ''2024-06-01'', totalDataPoints = 3\<rparr>])],
      pages = [], unreadable = {}, unwritable = {}\<rparr>"

text \<open>A client whose only reading has a date that does not parse.\<close>

definition unparseableFetch :: "string \<Rightarrow> exn + TrafficDataPoint list" where
  "unparseableFetch i = Inr [reading ''n/a'' 0 5]"

text \<open>Runs: three devices of which the second fails, and one device without new
  readings; a file system on which the metadata file cannot be written; a batch for
  April.\<close>

definition threeDevices :: env where
  "threeDevices = sampleEnv sampleFetch [sampleDevice ''1'', sampleDevice ''2'', sampleDevice ''3'']"

definition quietDevice :: env where
  "quietDevice = sampleEnv noReadings [sampleDevice ''1'']"

definition lockedMetadata :: filesystem where
  "lockedMetadata = emptyFs\<lparr>unwritable := {''data/devices.json''}\<rparr>"

definition aprilBatch :: MonthlyData where
  "aprilBatch =
     \<lparr>device_id = ''1'', month = ''2024-04'', data = [reading ''2024-04-30'' 13 4],
      lastUpdated = ''2024-06-03T00:00:00.000Z''\<rparr>"

definition lockedApril :: filesystem where
  "lockedApril = sampleStore\<lparr>unwritable := {''data/device_1/hourly/2024-04.json''}\<rparr>"

text \<open>A revised reading and a revised daily entry for a key that is already stored.\<close>

definition juneRevision :: MonthlyData where
  "juneRevision =
     \<lparr>device_id = ''1'', month = ''2024-06'', data = [reading ''2024-06-01'' 0 99],
      lastUpdated = ''2024-06-03T00:00:00.000Z''\<rparr>"

section \<open>Properties of the merge\<close>

text \<open>The map a batch denotes: each key is bound to the last item carrying it.\<close>

lemma map_of_upsertAll:
  "map_of (upsertAll key m xs) = map_of m ++ map_of (rev (map (\<lambda>x. (key x, x)) xs))"
proof (induction xs arbitrary: m)
  case Nil
  show ?case by (simp add: upsertAll_def)
next
  case (Cons x xs)
  have "upsertAll key m (x # xs) = upsertAll key (AList.update (key x) x m) xs"
    by (simp add: upsertAll_def)
  moreover have "[key x \<mapsto> x] ++ f = (\<lambda>k. case f k of None \<Rightarrow> [key x \<mapsto> x] k | Some v \<Rightarrow> Some v)" for f
    by (simp add: map_add_def)
  ultimately show ?case
    by (auto simp: Cons.IH update_conv' map_add_def fun_eq_iff split: option.splits)
qed

lemma distinct_upsertAll:
  "distinct (map fst m) \<Longrightarrow> distinct (map fst (upsertAll key m xs))"
  by (induction xs arbitrary: m) (simp_all add: upsertAll_def distinct_update)

lemma keyed_update:
  assumes "\<forall>e \<in> set m. fst e = key (snd e)"
  shows "\<forall>e \<in> set (AList.update (key x) x m). fst e = key (snd e)"
  using assms by (induction m) (auto simp: AList.update.simps)

lemma keyed_upsertAll:
  "\<forall>e \<in> set m. fst e = key (snd e) \<Longrightarrow> \<forall>e \<in> set (upsertAll key m xs). fst e = key (snd e)"
proof (induction xs arbitrary: m)
  case Nil
  then show ?case by (simp add: upsertAll_def)
next
  case (Cons x xs)
  have step: "upsertAll key m (x # xs) = upsertAll key (AList.update (key x) x m) xs"
    by (simp add: upsertAll_def)
  show ?case
    unfolding step by (rule Cons.IH) (rule keyed_update [OF Cons.prems])
qed

lemma mergeByKey_set:
  "set (mergeByKey key xs ys) = ran (map_of (rev (map (\<lambda>x. (key x, x)) (xs @ ys))))"
proof -
  let ?al = "upsertAll key (upsertAll key [] xs) ys"
  have d: "distinct (map fst ?al)"
    by (simp add: distinct_upsertAll)
  have "map_of ?al = map_of (rev (map (\<lambda>x. (key x, x)) (xs @ ys)))"
    by (simp add: map_of_upsertAll)
  then have "ran (map_of (rev (map (\<lambda>x. (key x, x)) (xs @ ys)))) = snd ` set ?al"
    using ran_distinct [OF d] by simp
  then show ?thesis
    by (simp add: mergeByKey_def)
qed

lemma mergeByKey_keys:
  "map key (map snd (upsertAll key (upsertAll key [] xs) ys)) =
   map fst (upsertAll key (upsertAll key [] xs) ys)"
proof -
  have "\<forall>e \<in> set (upsertAll key (upsertAll key [] xs) ys). fst e = key (snd e)"
    by (intro keyed_upsertAll) simp
  then show ?thesis by simp
qed

lemma mergeByKey_distinct: "distinct (map key (mergeByKey key xs ys))"
proof -
  let ?al = "upsertAll key (upsertAll key [] xs) ys"
  have "distinct (map fst ?al)"
    by (simp add: distinct_upsertAll)
  then have "distinct (map key (map snd ?al))"
    by (simp only: mergeByKey_keys)
  then have "distinct (map key (sort_key key (map snd ?al)))"
    by (metis distinct_map distinct_sort set_sort)
  then show ?thesis
    by (simp add: mergeByKey_def)
qed

lemma mergeByKey_sorted: "sorted (map key (mergeByKey key xs ys))"
  by (simp add: mergeByKey_def)

text \<open>A key-sorted list without duplicate keys is determined by its set of items.\<close>

lemma mergeByKey_unique:
  assumes "sorted (map key zs)" and "distinct (map key zs)"
    and "set zs = set (mergeByKey key xs ys)"
  shows "zs = mergeByKey key xs ys"
proof (rule map_sorted_distinct_set_unique [where f = key])
  have "distinct (map key (mergeByKey key xs ys))"
    by (rule mergeByKey_distinct)
  then show "inj_on key (set zs \<union> set (mergeByKey key xs ys))"
    using assms(3) by (simp add: distinct_map)
qed (use assms in \<open>simp_all add: mergeByKey_sorted mergeByKey_distinct\<close>)

text \<open>Every item of the result comes from one of the two lists.\<close>

lemma mergeByKey_subset: "set (mergeByKey key xs ys) \<subseteq> set xs \<union> set ys"
proof
  fix x assume "x \<in> set (mergeByKey key xs ys)"
  then have "x \<in> ran (map_of (rev (map (\<lambda>x. (key x, x)) (xs @ ys))))"
    by (simp only: mergeByKey_set)
  then obtain k where "map_of (rev (map (\<lambda>x. (key x, x)) (xs @ ys))) k = Some x"
    unfolding ran_def by blast
  from map_of_SomeD [OF this] show "x \<in> set xs \<union> set ys"
    by auto
qed

text \<open>Items whose keys all occur in the incoming batch leave no trace in the result.\<close>

lemma mergeByKey_absorb:
  assumes "key ` set xs \<subseteq> key ` set ys"
  shows "mergeByKey key xs ys = mergeByKey key [] ys"
proof (rule mergeByKey_unique)
  let ?mx = "map_of (rev (map (\<lambda>x. (key x, x)) xs))"
  let ?my = "map_of (rev (map (\<lambda>x. (key x, x)) ys))"
  have "dom ?mx = key ` set xs" "dom ?my = key ` set ys"
    by (simp_all add: dom_map_of_conv_image_fst image_comp comp_def)
  with assms have "dom ?mx \<subseteq> dom ?my"
    by simp
  then have "?mx ++ ?my = ?my"
    by (auto simp: map_add_def fun_eq_iff split: option.splits)
  then show "set (mergeByKey key xs ys) = set (mergeByKey key [] ys)"
    by (simp add: mergeByKey_set)
qed (simp_all add: mergeByKey_sorted mergeByKey_distinct)

lemma mergeByKey_idem: "mergeByKey key (mergeByKey key [] ys) ys = mergeByKey key [] ys"
proof (rule mergeByKey_absorb)
  show "key ` set (mergeByKey key [] ys) \<subseteq> key ` set ys"
    using mergeByKey_subset [of key "[]" ys] by auto
qed

lemma filter_key_single:
  "distinct (map key zs) \<Longrightarrow> z \<in> set zs \<Longrightarrow> filter (\<lambda>p. key p = key z) zs = [z]"
proof (induction zs)
  case Nil
  then show ?case by simp
next
  case (Cons a zs)
  show ?case
  proof (cases "a = z")
    case True
    have "key z \<notin> key ` set zs"
      using Cons.prems(1) True by simp
    then have "\<forall>p \<in> set zs. key p \<noteq> key z"
      by (metis imageI)
    then have "filter (\<lambda>p. key p = key z) zs = []"
      by (simp add: filter_empty_conv)
    with True show ?thesis by simp
  next
    case False
    with Cons.prems have "z \<in> set zs" and "key a \<noteq> key z"
      by auto
    with Cons show ?thesis by simp
  qed
qed

text \<open>The last incoming item of a key is the one item of that key in the result.\<close>

lemma mergeByKey_last_wins:
  assumes "key i \<notin> key ` set zs"
  shows "filter (\<lambda>p. key p = key i) (mergeByKey key xs (ys @ i # zs)) = [i]"
proof -
  let ?m = "map_of (rev (map (\<lambda>x. (key x, x)) (xs @ ys @ i # zs)))"
  have "map_of (rev (map (\<lambda>x. (key x, x)) zs)) (key i) = None"
    using assms by (simp add: map_of_eq_None_iff image_comp comp_def)
  then have "?m (key i) = Some i"
    by (simp add: map_add_def)
  then have "i \<in> ran ?m"
    by (rule ranI)
  then have "i \<in> set (mergeByKey key xs (ys @ i # zs))"
    by (simp only: mergeByKey_set)
  with mergeByKey_distinct show ?thesis
    by (rule filter_key_single)
qed


section \<open>Properties of the storage\<close>

lemma legacy_ne_hourly: "getLegacyMonthlyFilePath e d m \<noteq> getHourlyFilePath e d m"
proof
  assume "getLegacyMonthlyFilePath e d m = getHourlyFilePath e d m"
  then have "length (getLegacyMonthlyFilePath e d m) = length (getHourlyFilePath e d m)"
    by simp
  then show False
    by (simp add: getLegacyMonthlyFilePath_def getHourlyFilePath_def pathJoin_def)
qed

lemma loadMonthlyData_primary:
  "readJson fs (getHourlyFilePath e d m) = Inr (Some primary) \<Longrightarrow>
   loadMonthlyData e fs d m = Inr (Some primary)"
  by (simp add: loadMonthlyData_def)

lemma loadMonthlyData_fallback:
  "readJson fs (getHourlyFilePath e d m) = Inr None \<Longrightarrow>
   loadMonthlyData e fs d m = readJson fs (getLegacyMonthlyFilePath e d m)"
  by (simp add: loadMonthlyData_def)

lemma saveMonthlyData_write_fails:
  assumes "getHourlyFilePath e d (month md) \<in> unwritable fs"
  shows "fst (saveMonthlyData e fs d md) = fs \<and> isl (snd (saveMonthlyData e fs d md))"
  using assms
  by (simp add: saveMonthlyData_def saveMonthlyDataTry_def writeJson_def
      split: sum.splits prod.splits)

lemma saveMonthlyData_legacy_gone:
  assumes "map_of (files fs) (getLegacyMonthlyFilePath e d (month md)) = Some x"
    and "map_of (files (fst (saveMonthlyData e fs d md))) (getLegacyMonthlyFilePath e d (month md)) = None"
  shows "\<exists>existing. loadMonthlyData e fs d (month md) = Inr existing \<and>
     map_of (files (fst (saveMonthlyData e fs d md))) (getHourlyFilePath e d (month md)) =
       Some (MonthlyJson \<lparr>device_id = d, month = month md,
               data = mergeDataPoints d (dataOf existing) (data md), lastUpdated = now e\<rparr>)"
proof (cases "loadMonthlyData e fs d (month md)")
  case (Inl err)
  then have "fst (saveMonthlyData e fs d md) = fs"
    by (simp add: saveMonthlyData_def saveMonthlyDataTry_def)
  with assms show ?thesis by simp
next
  case (Inr existing)
  let ?h = "getHourlyFilePath e d (month md)"
  let ?l = "getLegacyMonthlyFilePath e d (month md)"
  have ne: "?l \<noteq> ?h" by (rule legacy_ne_hourly)
  show ?thesis
  proof (cases "?h \<in> unwritable fs")
    case True
    then have "fst (saveMonthlyData e fs d md) = fs"
      using saveMonthlyData_write_fails by blast
    with assms show ?thesis by simp
  next
    case False
    show ?thesis
      using assms Inr False ne
      by (auto simp: saveMonthlyData_def saveMonthlyDataTry_def writeJson_def
          removeLegacyMonthlyFile_def deleteFile_def update_conv' delete_conv'
          split: if_splits)
  qed
qed

lemma sumDataPoints_stored:
  assumes "distinct (map fst (files fs))" and "unreadable fs = {}" and "set xs \<subseteq> set (files fs)"
  shows "sumDataPoints fs (map fst xs) acc = Inr (acc + sum_list (map (\<lambda>f. dataLength (snd f)) xs))"
  using assms(3)
proof (induction xs arbitrary: acc)
  case Nil
  show ?case by simp
next
  case (Cons f xs)
  from Cons.prems have "(fst f, snd f) \<in> set (files fs)" by simp
  with assms(1) have look: "map_of (files fs) (fst f) = Some (snd f)"
    by (rule map_of_is_SomeI)
  from Cons.prems have sub: "set xs \<subseteq> set (files fs)" by simp
  show ?case
  proof (cases "snd f")
    case (MonthlyJson md)
    with look assms(2) show ?thesis
      by (simp add: readJson_def Cons.IH [OF sub])
  next
    case (DailyJson dd)
    with look assms(2) show ?thesis
      by (simp add: readJson_def Cons.IH [OF sub])
  next
    case (MetadataJson ms)
    with look assms(2) show ?thesis
      by (simp add: readJson_def Cons.IH [OF sub])
  qed
qed

lemma storedMonthlyFiles_paths:
  "filter (\<lambda>p. isUnder (getHourlyDirectory e d) p \<and> isJsonFile p) (map fst (files fs))
   = map fst (storedMonthlyFiles e fs d)"
  by (simp add: storedMonthlyFiles_def filter_map comp_def)

lemma storedMonthlyFiles_none:
  assumes "\<not> directoryExists fs (getHourlyDirectory e d)"
  shows "storedMonthlyFiles e fs d = []"
proof -
  have "\<forall>f \<in> set (files fs). \<not> isUnder (getHourlyDirectory e d) (fst f)"
    using assms by (auto simp: directoryExists_def list_ex_iff)
  then show ?thesis
    by (simp add: storedMonthlyFiles_def filter_empty_conv)
qed

lemma getTotal_missing_directory:
  "\<not> directoryExists fs (getHourlyDirectory e d) \<Longrightarrow> getTotalHourlyDataPoints e fs d = Inr 0"
  by (simp add: getTotalHourlyDataPoints_def collectJsonFiles_def)

lemma getTotal_stored:
  assumes "distinct (map fst (files fs))" and "unreadable fs = {}"
  shows "getTotalHourlyDataPoints e fs d = Inr (storedDataPoints e fs d)"
proof (cases "directoryExists fs (getHourlyDirectory e d)")
  case False
  then show ?thesis
    by (simp add: getTotal_missing_directory storedDataPoints_def storedMonthlyFiles_none)
next
  case True
  have "set (storedMonthlyFiles e fs d) \<subseteq> set (files fs)"
    by (auto simp: storedMonthlyFiles_def)
  from sumDataPoints_stored [OF assms this, of 0] True assms(2) show ?thesis
    by (simp add: getTotalHourlyDataPoints_def collectJsonFiles_def storedMonthlyFiles_paths
        storedDataPoints_def)
qed

lemma sum_groupInsert:
  "sum_list (map (\<lambda>g. length (snd g)) (groupInsert k x m)) = Suc (sum_list (map (\<lambda>g. length (snd g)) m))"
  by (induction m) auto

lemma sum_groupBy_acc:
  "sum_list (map (\<lambda>g. length (snd g)) (foldl (\<lambda>acc x. groupInsert (key x) x acc) m xs))
   = sum_list (map (\<lambda>g. length (snd g)) m) + length xs"
  by (induction xs arbitrary: m) (simp_all add: sum_groupInsert)

lemma sum_groupBy: "sum_list (map (\<lambda>g. length (snd g)) (groupBy key xs)) = length xs"
  by (simp add: groupBy_def sum_groupBy_acc)

lemma saveMonths_total:
  "saveMonths e fs d gs acc = (fs', Inr n) \<Longrightarrow> n = acc + sum_list (map (\<lambda>g. length (snd g)) gs)"
proof (induction gs arbitrary: fs acc)
  case Nil
  then show ?case by simp
next
  case (Cons g gs)
  from Cons.prems obtain fs1 fs2 where
    "saveMonths e fs2 d gs (acc + length (snd g)) = (fs', Inr n)"
    by (auto split: prod.splits sum.splits)
  from Cons.IH [OF this] show ?case by simp
qed

lemma collectSingleDevice_count:
  assumes "fetchTrafficData e (dc_id dev) = Inr dps"
    and "success (snd (collectSingleDevice e fs dev))"
  shows "dataPointsCollected (snd (collectSingleDevice e fs dev))
         = sum_list (map (\<lambda>g. length (snd g)) (groupDataByMonth e dps))"
proof (cases "dps = []")
  case True
  with assms show ?thesis
    by (simp add: collectSingleDevice_def groupDataByMonth_def groupByMonth_def groupBy_def)
next
  case False
  obtain fs1 r where sd: "saveDeviceData e fs (dc_id dev) dps = (fs1, r)"
    by (cases "saveDeviceData e fs (dc_id dev) dps")
  show ?thesis
  proof (cases r)
    case (Inl err)
    with assms False sd show ?thesis
      by (simp add: collectSingleDevice_def failedResult_def)
  next
    case (Inr n)
    with sd have "n = 0 + sum_list (map (\<lambda>g. length (snd g)) (groupDataByMonth e dps))"
      unfolding saveDeviceData_def by (intro saveMonths_total) simp
    with assms False sd Inr show ?thesis
      by (simp add: collectSingleDevice_def)
  qed
qed

lemma groupDataByMonth_total:
  "sum_list (map (\<lambda>g. length (snd g)) (groupDataByMonth e dps))
   = length (filter (validDate (parseDate e)) dps)"
  by (simp add: groupDataByMonth_def groupByMonth_def sum_groupBy)

lemma collectSingleDevice_empty:
  assumes "fetchTrafficData e (dc_id dev) = Inr []"
  shows "collectSingleDevice e fs dev =
     (fs, \<lparr>deviceId = dc_id dev, success = True, dataPointsCollected = 0,
           cr_lastUpdated = None, cr_error = None\<rparr>)"
  using assms by (simp add: collectSingleDevice_def getLatestDataTimestamp_def)

section \<open>Properties of the collector\<close>

lemma writeJson_faultFree:
  "faultFree fs \<Longrightarrow> writeJson fs p v = (fs\<lparr>files := AList.update p v (files fs)\<rparr>, Inr ())"
  by (simp add: faultFree_def writeJson_def)

lemma readJson_faultFree: "faultFree fs \<Longrightarrow> readJson fs p = Inr (map_of (files fs) p)"
  by (simp add: faultFree_def readJson_def)

lemma faultFree_files [simp]: "faultFree (fs\<lparr>files := fl\<rparr>) = faultFree fs"
  by (simp add: faultFree_def)

lemma faultFree_pages [simp]: "faultFree (fs\<lparr>pages := pg\<rparr>) = faultFree fs"
  by (simp add: faultFree_def)

lemma saveMonthlyData_faultFree:
  assumes "faultFree fs"
  shows "\<exists>fs'. saveMonthlyData e fs d md = (fs', Inr ()) \<and> faultFree fs'"
proof -
  have "\<exists>j. loadMonthlyData e fs d (month md) = Inr j"
    using assms by (simp add: loadMonthlyData_def readJson_faultFree split: option.splits)
  then obtain j where "loadMonthlyData e fs d (month md) = Inr j" ..
  with assms show ?thesis
    by (simp add: saveMonthlyData_def saveMonthlyDataTry_def writeJson_faultFree
        removeLegacyMonthlyFile_def deleteFile_def faultFree_def)
qed

lemma saveDailyData_faultFree:
  assumes "faultFree fs"
  shows "\<exists>fs'. saveDailyData e fs d m es = (fs', Inr ()) \<and> faultFree fs'"
  using assms
  by (simp add: saveDailyData_def loadDailyData_def readJson_faultFree writeJson_faultFree)

lemma saveMonths_faultFree:
  "faultFree fs \<Longrightarrow> \<exists>fs' n. saveMonths e fs d gs acc = (fs', Inr n) \<and> faultFree fs'"
proof (induction gs arbitrary: fs acc)
  case Nil
  then show ?case by simp
next
  case (Cons g gs)
  from saveMonthlyData_faultFree [OF Cons.prems] obtain fs1 where
    m: "saveMonthlyData e fs d \<lparr>device_id = d, month = fst g, data = snd g, lastUpdated = now e\<rparr>
          = (fs1, Inr ())" and f1: "faultFree fs1"
    by blast
  from saveDailyData_faultFree [OF f1] obtain fs2 where
    dd: "saveDailyData e fs1 d (fst g) (buildDailyEntries e (snd g)) = (fs2, Inr ())"
    and f2: "faultFree fs2"
    by blast
  from Cons.IH [OF f2] m dd show ?case
    by simp
qed

lemma collectSingleDevice_faultFree:
  assumes "faultFree fs"
  shows "\<exists>fs' r. collectSingleDevice e fs dev = (fs', r) \<and> faultFree fs'
           \<and> deviceId r = dc_id dev \<and> success r = (\<not> isl (fetchTrafficData e (dc_id dev)))"
proof (cases "fetchTrafficData e (dc_id dev)")
  case (Inl err)
  with assms show ?thesis
    by (simp add: collectSingleDevice_def failedResult_def)
next
  case (Inr dps)
  show ?thesis
  proof (cases "dps = []")
    case True
    with Inr assms show ?thesis
      by (simp add: collectSingleDevice_def)
  next
    case False
    from saveMonths_faultFree [OF assms] obtain fs' n where
      "saveDeviceData e fs (dc_id dev) dps = (fs', Inr n)" and "faultFree fs'"
      unfolding saveDeviceData_def by blast
    with Inr False show ?thesis
      by (simp add: collectSingleDevice_def)
  qed
qed

lemma sumDataPoints_faultFree:
  "faultFree fs \<Longrightarrow> \<exists>n. sumDataPoints fs ps acc = Inr n"
proof (induction ps arbitrary: acc)
  case Nil
  show ?case by simp
next
  case (Cons p ps)
  then show ?case
    by (simp add: readJson_faultFree split: option.splits json.splits)
qed

lemma getTotal_faultFree:
  assumes "faultFree fs"
  shows "\<exists>n. getTotalHourlyDataPoints e fs d = Inr n"
  using assms sumDataPoints_faultFree [OF assms]
  by (simp add: getTotalHourlyDataPoints_def collectJsonFiles_def faultFree_def)

lemma collectLoop_faultFree:
  "faultFree fs \<Longrightarrow>
   \<exists>fs' rs' ms'. collectLoop e prev fs ds rs ms = (fs', Inr (rs', ms')) \<and> faultFree fs'
     \<and> map deviceId rs' = map deviceId rs @ map dc_id ds
     \<and> map success rs' = map success rs @ map (\<lambda>d. \<not> isl (fetchTrafficData e (dc_id d))) ds"
proof (induction ds arbitrary: fs rs ms)
  case Nil
  then show ?case by simp
next
  case (Cons dev ds)
  from collectSingleDevice_faultFree [OF Cons.prems] obtain fs1 r where
    c: "collectSingleDevice e fs dev = (fs1, r)" and f1: "faultFree fs1"
    and r: "deviceId r = dc_id dev" "success r = (\<not> isl (fetchTrafficData e (dc_id dev)))"
    by blast
  from getTotal_faultFree [OF f1] obtain n where
    t: "getTotalHourlyDataPoints e fs1 (dc_id dev) = Inr n"
    by blast
  from Cons.IH [OF f1, of "rs @ [r]" "ms @ [metadataEntry e prev dev r n]"] c t r
  show ?case
    by simp
qed

text \<open>Results of the loop that hold whatever the file system does.\<close>

lemma collectLoop_ids:
  "collectLoop e prev fs ds rs ms = (fs', Inr (rs', ms')) \<Longrightarrow>
   map dm_id ms' = map dm_id ms @ map dc_id ds \<and> length rs' = length rs + length ds"
proof (induction ds arbitrary: fs rs ms)
  case Nil
  then show ?case by simp
next
  case (Cons dev ds)
  obtain fs1 r where c: "collectSingleDevice e fs dev = (fs1, r)"
    by (cases "collectSingleDevice e fs dev")
  with Cons.prems obtain n where
    "collectLoop e prev fs1 ds (rs @ [r]) (ms @ [metadataEntry e prev dev r n]) = (fs', Inr (rs', ms'))"
    by (auto split: sum.splits)
  from Cons.IH [OF this] show ?case
    by (simp add: metadataEntry_def)
qed

lemma collectLoop_prefix:
  "collectLoop e prev fs ds rs ms = (fs', Inr (rs', ms')) \<Longrightarrow> take (length ms) ms' = ms"
proof (induction ds arbitrary: fs rs ms)
  case Nil
  then show ?case by simp
next
  case (Cons dev ds)
  obtain fs1 r where c: "collectSingleDevice e fs dev = (fs1, r)"
    by (cases "collectSingleDevice e fs dev")
  with Cons.prems obtain n where
    "collectLoop e prev fs1 ds (rs @ [r]) (ms @ [metadataEntry e prev dev r n]) = (fs', Inr (rs', ms'))"
    by (auto split: sum.splits)
  from Cons.IH [OF this] have "take (length ms + 1) ms' = ms @ [metadataEntry e prev dev r n]"
    by simp
  then have "take (length ms) (take (length ms + 1) ms') = take (length ms) (ms @ [metadataEntry e prev dev r n])"
    by simp
  then show ?case by simp
qed

lemma collectLoop_fallback:
  "collectLoop e prev fs ds rs ms = (fs', Inr (rs', ms')) \<Longrightarrow> i < length ds \<Longrightarrow>
   fetchTrafficData e (dc_id (ds ! i)) = Inr [] \<Longrightarrow> prev (dc_id (ds ! i)) = Some pm \<Longrightarrow>
   dm_lastUpdated (ms' ! (length ms + i)) = dm_lastUpdated pm"
proof (induction ds arbitrary: fs rs ms i)
  case Nil
  then show ?case by simp
next
  case (Cons dev ds)
  obtain fs1 r where c: "collectSingleDevice e fs dev = (fs1, r)"
    by (cases "collectSingleDevice e fs dev")
  with Cons.prems(1) obtain n where
    l: "collectLoop e prev fs1 ds (rs @ [r]) (ms @ [metadataEntry e prev dev r n]) = (fs', Inr (rs', ms'))"
    by (auto split: sum.splits)
  show ?case
  proof (cases i)
    case 0
    with Cons.prems have "fetchTrafficData e (dc_id dev) = Inr []" and p: "prev (dc_id dev) = Some pm"
      by simp_all
    with c have "cr_lastUpdated r = None"
      by (auto simp: collectSingleDevice_def getLatestDataTimestamp_def)
    with p have m: "dm_lastUpdated (metadataEntry e prev dev r n) = dm_lastUpdated pm"
      by (simp add: metadataEntry_def)
    from collectLoop_prefix [OF l] have "take (Suc (length ms)) ms' = ms @ [metadataEntry e prev dev r n]"
      by simp
    then have "take (Suc (length ms)) ms' ! length ms = (ms @ [metadataEntry e prev dev r n]) ! length ms"
      by simp
    then have "ms' ! length ms = metadataEntry e prev dev r n"
      by simp
    with m 0 show ?thesis by simp
  next
    case (Suc j)
    with Cons.prems have "j < length ds" "fetchTrafficData e (dc_id (ds ! j)) = Inr []"
      "prev (dc_id (ds ! j)) = Some pm"
      by simp_all
    from Cons.IH [OF l this] Suc show ?thesis by simp
  qed
qed


lemma filter_all_valid: "list_all P xs \<Longrightarrow> filter P xs = xs"
  by (induction xs) simp_all

lemma runCollection_InrD:
  assumes "runCollection e fs = (fs', Inr s)"
  obtains existing fs1 rs ms fs2 where
    "loadDeviceMetadata e fs = Inr (MetadataJson existing)"
    "collectLoop e (previousMetadataById existing) fs (devices e) [] [] = (fs1, Inr (rs, ms))"
    "saveDeviceMetadata e fs1 ms = (fs2, Inr ())"
    "generateLandingPage e fs2 = (fs', Inr ())"
    "s = createSummary rs (now e) (now e)"
  using assms unfolding runCollection_def
  by (auto split: sum.splits json.splits prod.splits)

lemma saveDeviceMetadata_stored:
  "saveDeviceMetadata e fs ms = (fs', Inr u) \<Longrightarrow>
   map_of (files fs') (getDeviceMetadataPath e) = Some (MetadataJson ms)"
  by (auto simp: saveDeviceMetadata_def writeJson_def update_conv' split: if_splits)

lemma generateLandingPage_stored:
  "generateLandingPage e fs = (fs', Inr u) \<Longrightarrow>
   files fs' = files fs \<and> map_of (pages fs') (getLandingPagePath e) = Some (landingPage e)"
  by (auto simp: generateLandingPage_def writeText_def update_conv' split: if_splits sum.splits)

lemma failedDevices_createSummary:
  "(0 < failedDevices (createSummary rs a b)) = list_ex (\<lambda>r. \<not> success r) rs"
  by (induction rs) (simp_all add: createSummary_def)

lemma runCollection_persisted:
  assumes "runCollection e fs = (fs', Inr s)"
  shows "(\<exists>metas. map_of (files fs') (getDeviceMetadataPath e) = Some (MetadataJson metas)
            \<and> map dm_id metas = map dc_id (devices e))
         \<and> map_of (pages fs') (getLandingPagePath e) = Some (landingPage e)"
proof -
  from assms obtain existing fs1 rs ms fs2 where
    l: "collectLoop e (previousMetadataById existing) fs (devices e) [] [] = (fs1, Inr (rs, ms))"
    and sv: "saveDeviceMetadata e fs1 ms = (fs2, Inr ())"
    and g: "generateLandingPage e fs2 = (fs', Inr ())"
    by (rule runCollection_InrD)
  from collectLoop_ids [OF l] have "map dm_id ms = map dc_id (devices e)"
    by simp
  with saveDeviceMetadata_stored [OF sv] generateLandingPage_stored [OF g] show ?thesis
    by simp
qed

lemma collectAllDevices_outcome:
  assumes "runCollection e fs = (fs', Inr s)"
  shows "fst (collectAllDevices e fs) = fs'
         \<and> isl (snd (collectAllDevices e fs)) = list_ex (\<lambda>r. \<not> success r) (results s)"
proof -
  from assms obtain rs where s: "s = createSummary rs (now e) (now e)"
    by (rule runCollection_InrD)
  then have "results s = rs"
    by (simp add: createSummary_def)
  with s failedDevices_createSummary [of rs "now e" "now e"] assms show ?thesis
    by (simp add: collectAllDevices_def)
qed

lemma dataDir_exists_after_save:
  assumes "map_of (files fs) (getDeviceMetadataPath e) = Some j"
  shows "directoryExists fs (dataDir e)"
proof -
  from map_of_SomeD [OF assms] have "getDeviceMetadataPath e \<in> fst ` set (files fs)"
    by force
  moreover have "isUnder (dataDir e) (getDeviceMetadataPath e)"
    by (simp add: isUnder_def getDeviceMetadataPath_def pathJoin_def)
  ultimately show ?thesis
    by (auto simp: directoryExists_def list_ex_iff)
qed

lemma generateLandingPage_faultFree:
  assumes "faultFree fs" and "map_of (files fs) (getDeviceMetadataPath e) = Some j"
  shows "\<exists>fs'. generateLandingPage e fs = (fs', Inr ())"
  using assms dataDir_exists_after_save [OF assms(2)]
  by (simp add: generateLandingPage_def collectJsonFiles_def writeText_def faultFree_def)

lemma count_failed:
  assumes "map success rs = map (\<lambda>d. \<not> isl (f d)) ds"
  shows "length (filter (\<lambda>r. \<not> success r) rs) = length (filter (\<lambda>d. isl (f d)) ds)"
proof -
  have "length (filter (\<lambda>r. \<not> success r) rs) = length (filter (\<lambda>b. \<not> b) (map success rs))"
    by (simp add: filter_map comp_def)
  also have "\<dots> = length (filter (\<lambda>b. \<not> b) (map (\<lambda>d. \<not> isl (f d)) ds))"
    by (simp only: assms)
  also have "\<dots> = length (filter (\<lambda>d. isl (f d)) ds)"
    by (simp add: filter_map comp_def)
  finally show ?thesis .
qed

lemma saveMonthlyData_stored:
  assumes "saveMonthlyData e fs d md = (fs', Inr u)"
  shows "\<exists>existing. loadMonthlyData e fs d (month md) = Inr existing \<and>
     map_of (files fs') (getHourlyFilePath e d (month md)) =
       Some (MonthlyJson \<lparr>device_id = d, month = month md,
               data = mergeDataPoints d (dataOf existing) (data md), lastUpdated = now e\<rparr>)"
proof (cases "loadMonthlyData e fs d (month md)")
  case (Inl err)
  with assms show ?thesis
    by (simp add: saveMonthlyData_def saveMonthlyDataTry_def)
next
  case (Inr existing)
  have ne: "getLegacyMonthlyFilePath e d (month md) \<noteq> getHourlyFilePath e d (month md)"
    by (rule legacy_ne_hourly)
  from assms Inr ne show ?thesis
    by (auto simp: saveMonthlyData_def saveMonthlyDataTry_def writeJson_def
        removeLegacyMonthlyFile_def deleteFile_def update_conv' delete_conv'
        split: if_splits)
qed

lemma saveDailyData_stored:
  assumes "saveDailyData e fs d m entries = (fs', Inr u)"
  shows "\<exists>existing. loadDailyData e fs d m = Inr existing \<and>
     map_of (files fs') (getDailyFilePath e d m) =
       Some (DailyJson \<lparr>dd_device_id = d, dd_month = m,
               days = mergeDailyEntries (daysOf existing) entries, dd_lastUpdated = now e\<rparr>)"
  using assms
  by (auto simp: saveDailyData_def writeJson_def update_conv' split: sum.splits if_splits)

section \<open>Claims about the merge\<close>

text \<open>
  C1 (idempotent merge). Merging a batch of readings into the result of merging that same
  batch into nothing changes nothing: no growth and no reordering. Merging a list with
  itself gives the same list, the sorted last-wins deduplication of the batch.
\<close>

theorem mergeDataPoints_idempotent:
  "mergeDataPoints d (mergeDataPoints d [] R) R = mergeDataPoints d [] R
   \<and> mergeDataPoints d R R = mergeDataPoints d [] R"
proof -
  have "mergeByKey pointKey R R = mergeByKey pointKey [] R"
    by (rule mergeByKey_absorb) simp
  then show ?thesis
    by (simp add: mergeDataPoints_def mergeByKey_idem)
qed

text \<open>
  C2 (last write wins by key). Whatever the stored readings are, after a merge the
  result holds exactly one reading with the key (date, hour) of an incoming reading
  \<open>i\<close>, and it is \<open>i\<close> itself, provided no later reading of the incoming batch carries
  the same key. Only the position in the batch decides; the readings' contents are
  never compared. So after a successful \<open>saveMonthlyData\<close> the monthly file holds, for
  that key, the reading of the batch just saved and nothing else.
\<close>

theorem mergeDataPoints_last_write_wins:
  assumes "pointKey i \<notin> pointKey ` set zs"
  shows "filter (\<lambda>p. pointKey p = pointKey i) (mergeDataPoints d existing (ys @ i # zs)) = [i]
     \<and> (saveMonthlyData e fs d md = (fs', Inr u) \<and> data md = ys @ i # zs \<longrightarrow>
          (\<exists>stored. map_of (files fs') (getHourlyFilePath e d (month md)) = Some (MonthlyJson stored)
             \<and> filter (\<lambda>p. pointKey p = pointKey i) (data stored) = [i]))"
proof -
  have m: "filter (\<lambda>p. pointKey p = pointKey i) (mergeDataPoints d ex (ys @ i # zs)) = [i]" for ex
    using assms by (simp add: mergeDataPoints_def mergeByKey_last_wins)
  have "\<exists>stored. map_of (files fs') (getHourlyFilePath e d (month md)) = Some (MonthlyJson stored)
             \<and> filter (\<lambda>p. pointKey p = pointKey i) (data stored) = [i]"
    if "saveMonthlyData e fs d md = (fs', Inr u)" and "data md = ys @ i # zs"
    using saveMonthlyData_stored [OF that(1)] that(2) m by auto
  with m show ?thesis by blast
qed

theorem mergeDataPoints_last_write_wins_witness:
  "pointKey (reading ''2024-06-01'' 0 99) \<notin> pointKey ` set []
   \<and> filter (\<lambda>p. pointKey p = pointKey (reading ''2024-06-01'' 0 99))
       (mergeDataPoints ''1'' [reading ''2024-06-01'' 0 10, reading ''2024-06-01'' 1 20]
          ([] @ reading ''2024-06-01'' 0 99 # [])) = [reading ''2024-06-01'' 0 99]
   \<and> saveMonthlyData quietDevice sampleStore ''1'' juneRevision
       = (fst (saveMonthlyData quietDevice sampleStore ''1'' juneRevision), Inr ())
   \<and> data juneRevision = [] @ reading ''2024-06-01'' 0 99 # []
   \<and> (\<exists>stored. map_of (files (fst (saveMonthlyData quietDevice sampleStore ''1'' juneRevision)))
                  (getHourlyFilePath quietDevice ''1'' (month juneRevision)) = Some (MonthlyJson stored)
        \<and> filter (\<lambda>p. pointKey p = pointKey (reading ''2024-06-01'' 0 99)) (data stored)
            = [reading ''2024-06-01'' 0 99])
   \<and> dataOf (map_of (files (fst (saveMonthlyData quietDevice sampleStore ''1'' juneRevision)))
        ''data/device_1/hourly/2024-06.json'')
       = [reading ''2024-06-01'' 0 99, reading ''2024-06-01'' 1 20]"
  (is "?h1 \<and> ?c1 \<and> ?h2 \<and> ?h3 \<and> ?c2 \<and> ?v")
proof -
  have h1: ?h1 by simp
  have h2: ?h2 by code_simp
  have h3: ?h3 by (simp add: juneRevision_def)
  have v: ?v by code_simp
  from mergeDataPoints_last_write_wins [OF h1, of "''1''"
      "[reading ''2024-06-01'' 0 10, reading ''2024-06-01'' 1 20]" "[]"
      quietDevice sampleStore juneRevision
      "fst (saveMonthlyData quietDevice sampleStore ''1'' juneRevision)" "()"] h2 h3
  have "?c1 \<and> ?c2" by blast
  with h1 h2 h3 v show ?thesis by blast
qed

text \<open>
  C3 (sort invariant). For all input lists, in any order, the result of the merge is
  strictly ascending by (date, hour); in particular no key occurs twice.
\<close>

theorem mergeDataPoints_strictly_sorted:
  "sorted_wrt (<) (map pointKey (mergeDataPoints d existing incoming))
   \<and> distinct (map pointKey (mergeDataPoints d existing incoming))"
  by (simp add: mergeDataPoints_def strict_sorted_iff mergeByKey_sorted mergeByKey_distinct)

text \<open>
  C4 (daily merge replaces, never sums). Whatever the stored daily entries are, the
  merged list holds exactly one entry for the date of an incoming entry \<open>i\<close>, and it is
  \<open>i\<close> as a whole (when no later incoming entry has the same date): the stored counts for
  that date are dropped, not added. So after a successful \<open>saveDailyData\<close> the daily
  file holds, for that date, the incoming entry.
\<close>

theorem mergeDailyEntries_replaces:
  assumes "de_date i \<notin> de_date ` set zs"
  shows "filter (\<lambda>x. de_date x = de_date i) (mergeDailyEntries existing (ys @ i # zs)) = [i]
     \<and> (saveDailyData e fs d m (ys @ i # zs) = (fs', Inr u) \<longrightarrow>
          (\<exists>stored. map_of (files fs') (getDailyFilePath e d m) = Some (DailyJson stored)
             \<and> filter (\<lambda>x. de_date x = de_date i) (days stored) = [i]))"
proof -
  have m: "filter (\<lambda>x. de_date x = de_date i) (mergeDailyEntries ex (ys @ i # zs)) = [i]" for ex
    using assms by (simp add: mergeDailyEntries_def mergeByKey_last_wins)
  have "\<exists>stored. map_of (files fs') (getDailyFilePath e d m) = Some (DailyJson stored)
             \<and> filter (\<lambda>x. de_date x = de_date i) (days stored) = [i]"
    if "saveDailyData e fs d m (ys @ i # zs) = (fs', Inr u)"
    using saveDailyData_stored [OF that] m by auto
  with m show ?thesis by blast
qed

theorem mergeDailyEntries_replaces_witness:
  "de_date (dailyEntry ''2024-06-01'' 5) \<notin> de_date ` set ([] :: DailyEntry list)
   \<and> filter (\<lambda>x. de_date x = de_date (dailyEntry ''2024-06-01'' 5))
       (mergeDailyEntries [dailyEntry ''2024-06-01'' 30] ([] @ dailyEntry ''2024-06-01'' 5 # []))
      = [dailyEntry ''2024-06-01'' 5]
   \<and> saveDailyData quietDevice sampleStore ''1'' ''2024-06'' ([] @ dailyEntry ''2024-06-01'' 5 # [])
       = (fst (saveDailyData quietDevice sampleStore ''1'' ''2024-06''
                 ([] @ dailyEntry ''2024-06-01'' 5 # [])), Inr ())
   \<and> (\<exists>stored. map_of (files (fst (saveDailyData quietDevice sampleStore ''1'' ''2024-06''
                    ([] @ dailyEntry ''2024-06-01'' 5 # []))))
                  (getDailyFilePath quietDevice ''1'' ''2024-06'') = Some (DailyJson stored)
        \<and> filter (\<lambda>x. de_date x = de_date (dailyEntry ''2024-06-01'' 5)) (days stored)
            = [dailyEntry ''2024-06-01'' 5])
   \<and> map de_car (daysOf (map_of (files sampleStore) ''data/device_1/daily/2024-06.json'')) = [30]
   \<and> map de_car (daysOf (map_of (files (fst (saveDailyData quietDevice sampleStore ''1'' ''2024-06''
                    ([] @ dailyEntry ''2024-06-01'' 5 # []))))
          ''data/device_1/daily/2024-06.json'')) = [5]"
  (is "?h1 \<and> ?c1 \<and> ?h2 \<and> ?c2 \<and> ?v1 \<and> ?v2")
proof -
  have h1: ?h1 by simp
  have h2: ?h2 by code_simp
  have v1: ?v1 by code_simp
  have v2: ?v2 by code_simp
  from mergeDailyEntries_replaces [OF h1, of "[dailyEntry ''2024-06-01'' 30]" "[]"
      quietDevice sampleStore "''1''" "''2024-06''"
      "fst (saveDailyData quietDevice sampleStore ''1'' ''2024-06''
              ([] @ dailyEntry ''2024-06-01'' 5 # []))" "()"] h2
  have "?c1 \<and> ?c2" by blast
  with h1 h2 v1 v2 show ?thesis by blast
qed

section \<open>Claims about the storage\<close>

text \<open>
  C8 (total count recomputation). The total of a device is 0, and nothing is thrown,
  when its hourly directory does not exist; on a file system where a path names one
  file and no read raises, it is exactly the sum of \<open>data.length\<close> over the monthly files
  stored in the hourly directory: a function of what is stored, not of the runs that
  stored it.
\<close>

theorem total_count_recomputation:
  "(\<not> directoryExists fs (getHourlyDirectory e d) \<longrightarrow> getTotalHourlyDataPoints e fs d = Inr 0)
   \<and> (distinct (map fst (files fs)) \<and> unreadable fs = {} \<longrightarrow>
        getTotalHourlyDataPoints e fs d = Inr (storedDataPoints e fs d))"
  using getTotal_missing_directory getTotal_stored by blast

theorem total_count_recomputation_witness:
  "\<not> directoryExists (sampleStore\<lparr>unreadable := {''data/devices.json''}\<rparr>)
       (getHourlyDirectory quietDevice ''9'')
   \<and> getTotalHourlyDataPoints quietDevice
       (sampleStore\<lparr>unreadable := {''data/devices.json''}\<rparr>) ''9'' = Inr 0
   \<and> distinct (map fst (files sampleStore)) \<and> unreadable sampleStore = {}
   \<and> getTotalHourlyDataPoints quietDevice sampleStore ''1'' = Inr 3"
proof -
  let ?e = quietDevice
  let ?fs = "sampleStore\<lparr>unreadable := {''data/devices.json''}\<rparr>"
  have h1: "\<not> directoryExists ?fs (getHourlyDirectory ?e ''9'')"
    by code_simp
  have h2: "distinct (map fst (files sampleStore))"
    by code_simp
  have h3: "unreadable sampleStore = {}"
    by (simp add: sampleStore_def)
  have v: "storedDataPoints ?e sampleStore ''1'' = 3"
    by code_simp
  from total_count_recomputation [of ?fs ?e "''9''"] h1
  have c1: "getTotalHourlyDataPoints ?e ?fs ''9'' = Inr 0"
    by blast
  from total_count_recomputation [of sampleStore ?e "''1''"] h2 h3 v
  have c2: "getTotalHourlyDataPoints ?e sampleStore ''1'' = Inr 3"
    by simp
  from h1 h2 h3 c1 c2 show ?thesis
    by blast
qed

text \<open>
  C9 (two-tier lookup and migration). \<open>loadMonthlyData\<close> returns the document at the
  hourly location when there is one and otherwise what the legacy location holds.
  When the write to the hourly location raises, \<open>saveMonthlyData\<close> fails and leaves
  the file system, the legacy file included, as it was. And whenever a legacy file
  that existed before \<open>saveMonthlyData\<close> is gone after it, the hourly location holds
  the merged data.
\<close>

theorem legacy_lookup_and_migration:
  "(readJson fs (getHourlyFilePath e d m) = Inr (Some primary) \<longrightarrow>
      loadMonthlyData e fs d m = Inr (Some primary))
   \<and> (readJson fs (getHourlyFilePath e d m) = Inr None \<longrightarrow>
      loadMonthlyData e fs d m = readJson fs (getLegacyMonthlyFilePath e d m))
   \<and> (getHourlyFilePath e d (month md) \<in> unwritable fs \<longrightarrow>
      fst (saveMonthlyData e fs d md) = fs \<and> isl (snd (saveMonthlyData e fs d md)))
   \<and> (map_of (files fs) (getLegacyMonthlyFilePath e d (month md)) = Some x
       \<and> map_of (files (fst (saveMonthlyData e fs d md)))
            (getLegacyMonthlyFilePath e d (month md)) = None \<longrightarrow>
      (\<exists>existing. loadMonthlyData e fs d (month md) = Inr existing \<and>
         map_of (files (fst (saveMonthlyData e fs d md))) (getHourlyFilePath e d (month md)) =
           Some (MonthlyJson \<lparr>device_id = d, month = month md,
                   data = mergeDataPoints d (dataOf existing) (data md),
                   lastUpdated = now e\<rparr>)))"
  using loadMonthlyData_primary loadMonthlyData_fallback saveMonthlyData_write_fails
    saveMonthlyData_legacy_gone
  by blast

theorem legacy_lookup_and_migration_witness:
  "readJson sampleStore (getHourlyFilePath quietDevice ''1'' ''2024-06'')
     = Inr (Some (MonthlyJson \<lparr>device_id = ''1'', month = ''2024-06'',
            data = [reading ''2024-06-01'' 0 10, reading ''2024-06-01'' 1 20],
            lastUpdated = ''2024-06-02T00:00:00.000Z''\<rparr>))
   \<and> loadMonthlyData quietDevice sampleStore ''1'' ''2024-06''
     = Inr (Some (MonthlyJson \<lparr>device_id = ''1'', month = ''2024-06'',
            data = [reading ''2024-06-01'' 0 10, reading ''2024-06-01'' 1 20],
            lastUpdated = ''2024-06-02T00:00:00.000Z''\<rparr>))
   \<and> readJson sampleStore (getHourlyFilePath quietDevice ''1'' ''2024-04'') = Inr None
   \<and> loadMonthlyData quietDevice sampleStore ''1'' ''2024-04''
     = readJson sampleStore (getLegacyMonthlyFilePath quietDevice ''1'' ''2024-04'')
   \<and> getHourlyFilePath quietDevice ''1'' (month aprilBatch) \<in> unwritable lockedApril
   \<and> fst (saveMonthlyData quietDevice lockedApril ''1'' aprilBatch) = lockedApril
   \<and> isl (snd (saveMonthlyData quietDevice lockedApril ''1'' aprilBatch))
   \<and> map_of (files sampleStore) (getLegacyMonthlyFilePath quietDevice ''1'' (month aprilBatch))
      = Some (MonthlyJson \<lparr>device_id = ''1'', month = ''2024-04'',
            data = [reading ''2024-04-30'' 12 3], lastUpdated = ''2024-05-01T00:00:00.000Z''\<rparr>)
   \<and> map_of (files (fst (saveMonthlyData quietDevice sampleStore ''1'' aprilBatch)))
        (getLegacyMonthlyFilePath quietDevice ''1'' (month aprilBatch)) = None
   \<and> (\<exists>existing. loadMonthlyData quietDevice sampleStore ''1'' (month aprilBatch) = Inr existing \<and>
        map_of (files (fst (saveMonthlyData quietDevice sampleStore ''1'' aprilBatch)))
          (getHourlyFilePath quietDevice ''1'' (month aprilBatch)) =
          Some (MonthlyJson \<lparr>device_id = ''1'', month = month aprilBatch,
                  data = mergeDataPoints ''1'' (dataOf existing) (data aprilBatch),
                  lastUpdated = now quietDevice\<rparr>))"
  (is "?h1 \<and> ?c1 \<and> ?h2 \<and> ?c2 \<and> ?h3 \<and> ?c3a \<and> ?c3b \<and> ?h4a \<and> ?h4b \<and> ?c4")
proof -
  have h1: ?h1 by code_simp
  have h2: ?h2 by code_simp
  have h3: ?h3
    by (simp add: getHourlyFilePath_def getDeviceDirectory_def pathJoin_def quietDevice_def
        sampleEnv_def aprilBatch_def lockedApril_def)
  have h4a: ?h4a by code_simp
  have h4b: ?h4b by code_simp
  from legacy_lookup_and_migration [where fs = sampleStore and e = quietDevice and d = "''1''"
      and m = "''2024-06''"] h1
  have c1: ?c1 by blast
  from legacy_lookup_and_migration [where fs = sampleStore and e = quietDevice and d = "''1''"
      and m = "''2024-04''"] h2
  have c2: ?c2 by blast
  from legacy_lookup_and_migration [where fs = lockedApril and e = quietDevice and d = "''1''"
      and md = aprilBatch] h3
  have c3: "?c3a \<and> ?c3b" by blast
  from legacy_lookup_and_migration [where fs = sampleStore and e = quietDevice and d = "''1''"
      and md = aprilBatch] h4a h4b
  have c4: ?c4 by blast
  from h1 c1 h2 c2 h3 c3 h4a h4b c4 show ?thesis
    by blast
qed

section \<open>Claims about the collector\<close>

text \<open>
  C5 (per-device isolation). On a file system without faults, whichever devices the
  client fails for, the run processes every configured device in order and reaches its
  summary: there is one result per device, marked failed exactly for the devices whose
  fetch failed and successful for all others, and \<open>failedDevices\<close> is the number of
  devices whose fetch failed.
\<close>

theorem per_device_isolation:
  assumes "faultFree fs" and "loadDeviceMetadata e fs = Inr (MetadataJson existing)"
  shows "\<exists>fs' s. runCollection e fs = (fs', Inr s)
      \<and> map deviceId (results s) = map dc_id (devices e)
      \<and> map success (results s) = map (\<lambda>d. \<not> isl (fetchTrafficData e (dc_id d))) (devices e)
      \<and> failedDevices s = length (filter (\<lambda>d. isl (fetchTrafficData e (dc_id d))) (devices e))
      \<and> totalDevices s = length (devices e)"
proof -
  from collectLoop_faultFree [OF assms(1), of e "previousMetadataById existing" "devices e" "[]" "[]"]
  obtain fs1 rs ms where
    l: "collectLoop e (previousMetadataById existing) fs (devices e) [] [] = (fs1, Inr (rs, ms))"
    and f1: "faultFree fs1"
    and ids: "map deviceId rs = map dc_id (devices e)"
    and ok: "map success rs = map (\<lambda>d. \<not> isl (fetchTrafficData e (dc_id d))) (devices e)"
    by auto
  from f1 obtain fs2 where
    sv: "saveDeviceMetadata e fs1 ms = (fs2, Inr ())" and f2: "faultFree fs2"
    by (simp add: saveDeviceMetadata_def writeJson_faultFree)
  from generateLandingPage_faultFree [OF f2 saveDeviceMetadata_stored [OF sv]] obtain fs3 where
    g: "generateLandingPage e fs2 = (fs3, Inr ())"
    by blast
  from assms(2) l sv g have run: "runCollection e fs = (fs3, Inr (createSummary rs (now e) (now e)))"
    by (simp add: runCollection_def)
  have "length rs = length (devices e)"
    using ids by (metis length_map)
  with run ids ok count_failed [OF ok] show ?thesis
    by (simp add: createSummary_def)
qed

theorem per_device_isolation_witness:
  "faultFree emptyFs
   \<and> loadDeviceMetadata threeDevices emptyFs = Inr (MetadataJson [])
   \<and> (\<exists>fs' s. runCollection threeDevices emptyFs = (fs', Inr s)
        \<and> map deviceId (results s) = [''1'', ''2'', ''3'']
        \<and> map success (results s) = [True, False, True]
        \<and> failedDevices s = 1 \<and> totalDevices s = 3)"
proof -
  have h1: "faultFree emptyFs"
    by (simp add: faultFree_def emptyFs_def)
  have h2: "loadDeviceMetadata threeDevices emptyFs = Inr (MetadataJson [])"
    by code_simp
  have v1: "map dc_id (devices threeDevices) = [''1'', ''2'', ''3'']"
    by code_simp
  have v2: "map (\<lambda>d. \<not> isl (fetchTrafficData threeDevices (dc_id d))) (devices threeDevices)
            = [True, False, True]"
    by code_simp
  have v3: "length (filter (\<lambda>d. isl (fetchTrafficData threeDevices (dc_id d))) (devices threeDevices)) = 1"
    by code_simp
  have v4: "length (devices threeDevices) = 3"
    by code_simp
  from per_device_isolation [OF h1 h2] v1 v2 v3 v4 h1 h2 show ?thesis
    by simp
qed

text \<open>
  C6 (aggregate run failure), as the program has it. When the run reaches its summary,
  that is when loading the prior metadata, recomputing the totals, saving the metadata
  and writing the landing page all succeed, \<open>collectAllDevices\<close> throws exactly if some
  device's collection failed, and at that point the metadata list, with one entry per
  configured device, and the landing page are already written. When one of those steps
  raises, \<open>collectAllDevices\<close> throws that error, whatever the devices' results are.
\<close>

theorem aggregate_failure_after_persist:
  "(runCollection e fs = (fs', Inr s) \<longrightarrow>
      fst (collectAllDevices e fs) = fs'
      \<and> isl (snd (collectAllDevices e fs)) = list_ex (\<lambda>r. \<not> success r) (results s)
      \<and> (\<exists>metas. map_of (files fs') (getDeviceMetadataPath e) = Some (MetadataJson metas)
            \<and> map dm_id metas = map dc_id (devices e))
      \<and> map_of (pages fs') (getLandingPagePath e) = Some (landingPage e))
   \<and> (runCollection e fs = (fs', Inl err) \<longrightarrow> collectAllDevices e fs = (fs', Inl err))"
  using collectAllDevices_outcome [of e fs fs' s] runCollection_persisted [of e fs fs' s]
  by (simp add: collectAllDevices_def)

theorem aggregate_failure_after_persist_witness:
  "runCollection threeDevices emptyFs
     = (fst (runCollection threeDevices emptyFs), Inr (projr (snd (runCollection threeDevices emptyFs))))
   \<and> list_ex (\<lambda>r. \<not> success r) (results (projr (snd (runCollection threeDevices emptyFs))))
   \<and> isl (snd (collectAllDevices threeDevices emptyFs))
   \<and> fst (collectAllDevices threeDevices emptyFs) = fst (runCollection threeDevices emptyFs)
   \<and> (\<exists>metas. map_of (files (fst (runCollection threeDevices emptyFs)))
                 (getDeviceMetadataPath threeDevices) = Some (MetadataJson metas)
        \<and> map dm_id metas = map dc_id (devices threeDevices))
   \<and> map_of (pages (fst (runCollection threeDevices emptyFs))) (getLandingPagePath threeDevices)
       = Some (landingPage threeDevices)
   \<and> runCollection quietDevice lockedMetadata
       = (lockedMetadata, Inl (FsError ''EACCES'' ''data/devices.json''))
   \<and> collectAllDevices quietDevice lockedMetadata
       = (lockedMetadata, Inl (FsError ''EACCES'' ''data/devices.json''))"
  (is "?h1 \<and> ?v \<and> ?c1 \<and> ?c2 \<and> ?c3 \<and> ?c4 \<and> ?h2 \<and> ?c5")
proof -
  have h1: ?h1 by code_simp
  have v: ?v by code_simp
  have h2: ?h2 by code_simp
  from aggregate_failure_after_persist [of threeDevices emptyFs
      "fst (runCollection threeDevices emptyFs)" "projr (snd (runCollection threeDevices emptyFs))"] h1 v
  have c: "?c1 \<and> ?c2 \<and> ?c3 \<and> ?c4" by blast
  from aggregate_failure_after_persist [of quietDevice lockedMetadata lockedMetadata _
      "FsError ''EACCES'' ''data/devices.json''"] h2
  have c5: ?c5 by blast
  from h1 v c h2 c5 show ?thesis by blast
qed

text \<open>The run of one device that collects successfully fails as a whole when the
  metadata file cannot be written: failure of the run does not imply a failed device.\<close>

theorem aggregate_failure_iff_counterexample:
  "devices quietDevice = [sampleDevice ''1'']
   \<and> success (snd (collectSingleDevice quietDevice lockedMetadata (sampleDevice ''1'')))
   \<and> isl (snd (collectAllDevices quietDevice lockedMetadata))"
  by code_simp

text \<open>
  C7 (fallback of \<open>lastUpdated\<close>). In a run that reaches its summary, the metadata entry
  written for a device whose fetch returned no readings carries the \<open>lastUpdated\<close> of
  the device's entry in the metadata stored by the previous run, not the current time.
\<close>

theorem lastUpdated_fallback:
  assumes "runCollection e fs = (fs', Inr s)"
    and "loadDeviceMetadata e fs = Inr (MetadataJson existing)"
    and "i < length (devices e)"
    and "fetchTrafficData e (dc_id (devices e ! i)) = Inr []"
    and "previousMetadataById existing (dc_id (devices e ! i)) = Some pm"
  shows "\<exists>metas. map_of (files fs') (getDeviceMetadataPath e) = Some (MetadataJson metas)
      \<and> length metas = length (devices e) \<and> dm_id (metas ! i) = dc_id (devices e ! i)
      \<and> dm_lastUpdated (metas ! i) = dm_lastUpdated pm"
proof -
  from assms(1) obtain existing' fs1 rs ms fs2 where
    ld: "loadDeviceMetadata e fs = Inr (MetadataJson existing')"
    and l: "collectLoop e (previousMetadataById existing') fs (devices e) [] [] = (fs1, Inr (rs, ms))"
    and sv: "saveDeviceMetadata e fs1 ms = (fs2, Inr ())"
    and g: "generateLandingPage e fs2 = (fs', Inr ())"
    by (rule runCollection_InrD)
  from ld assms(2) have e: "existing' = existing" by simp
  from collectLoop_ids [OF l] have ids: "map dm_id ms = map dc_id (devices e)"
    by simp
  then have len: "length ms = length (devices e)"
    by (metis length_map)
  from ids assms(3) len have idi: "dm_id (ms ! i) = dc_id (devices e ! i)"
    by (metis nth_map)
  from collectLoop_fallback [OF l assms(3,4)] assms(5) e
  have "dm_lastUpdated (ms ! i) = dm_lastUpdated pm"
    by simp
  with saveDeviceMetadata_stored [OF sv] generateLandingPage_stored [OF g] len idi
  show ?thesis by simp
qed

theorem lastUpdated_fallback_witness:
  "runCollection quietDevice sampleStore
     = (fst (runCollection quietDevice sampleStore), Inr (projr (snd (runCollection quietDevice sampleStore))))
   \<and> loadDeviceMetadata quietDevice sampleStore
       = Inr (MetadataJson [\<lparr>dm_id = ''1'', dm_name = ''Telraam 1'', dm_location = ''Karlsruhe'',
            dm_lastUpdated = ''2024-06-01'', totalDataPoints = 3\<rparr>])
   \<and> 0 < length (devices quietDevice)
   \<and> fetchTrafficData quietDevice (dc_id (devices quietDevice ! 0)) = Inr []
   \<and> previousMetadataById [\<lparr>dm_id = ''1'', dm_name = ''Telraam 1'', dm_location = ''Karlsruhe'',
            dm_lastUpdated = ''2024-06-01'', totalDataPoints = 3\<rparr>] (dc_id (devices quietDevice ! 0))
       = Some \<lparr>dm_id = ''1'', dm_name = ''Telraam 1'', dm_location = ''Karlsruhe'',
            dm_lastUpdated = ''2024-06-01'', totalDataPoints = 3\<rparr>
   \<and> (\<exists>metas. map_of (files (fst (runCollection quietDevice sampleStore)))
                 (getDeviceMetadataPath quietDevice) = Some (MetadataJson metas)
        \<and> length metas = length (devices quietDevice)
        \<and> dm_id (metas ! 0) = dc_id (devices quietDevice ! 0)
        \<and> dm_lastUpdated (metas ! 0) = ''2024-06-01'')
   \<and> now quietDevice \<noteq> ''2024-06-01''"
  (is "?h1 \<and> ?h2 \<and> ?h3 \<and> ?h4 \<and> ?h5 \<and> ?c \<and> ?n")
proof -
  have h1: ?h1 by code_simp
  have h2: ?h2 by code_simp
  have h3: ?h3 by code_simp
  have h4: ?h4 by code_simp
  have h5: ?h5 by code_simp
  have n: ?n by code_simp
  from lastUpdated_fallback [OF h1 h2 h3 h4 h5] have ?c by simp
  with h1 h2 h3 h4 h5 n show ?thesis by blast
qed

text \<open>
  C10 (what \<open>dataPointsCollected\<close> counts), as the program has it. For a device whose
  fetch returned a batch and whose collection succeeded, \<open>dataPointsCollected\<close> is the
  sum of the sizes of the month groups of the batch, whatever the storage held before;
  that is the number of fetched readings with a parseable date, hence the size of the
  batch when every date parses. A fetch of no readings gives a successful result with
  \<open>dataPointsCollected = 0\<close> and leaves the file system untouched.
\<close>

theorem dataPointsCollected_counts_grouped_batch:
  assumes "fetchTrafficData e (dc_id dev) = Inr dps"
  shows "(success (snd (collectSingleDevice e fs dev)) \<longrightarrow>
            dataPointsCollected (snd (collectSingleDevice e fs dev))
              = sum_list (map (\<lambda>g. length (snd g)) (groupDataByMonth e dps))
          \<and> dataPointsCollected (snd (collectSingleDevice e fs dev))
              = length (filter (validDate (parseDate e)) dps))
       \<and> (success (snd (collectSingleDevice e fs dev)) \<and> list_all (validDate (parseDate e)) dps \<longrightarrow>
            dataPointsCollected (snd (collectSingleDevice e fs dev)) = length dps)
       \<and> (dps = [] \<longrightarrow>
            collectSingleDevice e fs dev =
              (fs, \<lparr>deviceId = dc_id dev, success = True, dataPointsCollected = 0,
                    cr_lastUpdated = None, cr_error = None\<rparr>))"
proof -
  have a: "dataPointsCollected (snd (collectSingleDevice e fs dev))
        = sum_list (map (\<lambda>g. length (snd g)) (groupDataByMonth e dps))"
    if "success (snd (collectSingleDevice e fs dev))"
    using assms that by (rule collectSingleDevice_count)
  have b: "collectSingleDevice e fs dev =
        (fs, \<lparr>deviceId = dc_id dev, success = True, dataPointsCollected = 0,
              cr_lastUpdated = None, cr_error = None\<rparr>)" if "dps = []"
    using assms that by (simp add: collectSingleDevice_empty)
  from a b show ?thesis
    by (simp add: groupDataByMonth_total filter_all_valid)
qed

theorem dataPointsCollected_counts_grouped_batch_witness:
  "fetchTrafficData threeDevices (dc_id (sampleDevice ''1''))
     = Inr [reading ''2024-06-01'' 0 10, reading ''2024-06-01'' 1 20]
   \<and> success (snd (collectSingleDevice threeDevices sampleStore (sampleDevice ''1'')))
   \<and> list_all (validDate (parseDate threeDevices))
        [reading ''2024-06-01'' 0 10, reading ''2024-06-01'' 1 20]
   \<and> dataPointsCollected (snd (collectSingleDevice threeDevices sampleStore
        (sampleDevice ''1''))) = length [reading ''2024-06-01'' 0 10, reading ''2024-06-01'' 1 20]
   \<and> dataOf (map_of (files (fst (collectSingleDevice threeDevices sampleStore
        (sampleDevice ''1'')))) ''data/device_1/hourly/2024-06.json'')
      = dataOf (map_of (files sampleStore) ''data/device_1/hourly/2024-06.json'')
   \<and> fetchTrafficData quietDevice (dc_id (sampleDevice ''1'')) = Inr []
   \<and> collectSingleDevice quietDevice sampleStore (sampleDevice ''1'') =
        (sampleStore, \<lparr>deviceId = dc_id (sampleDevice ''1''), success = True,
           dataPointsCollected = 0, cr_lastUpdated = None, cr_error = None\<rparr>)"
  (is "?h1 \<and> ?h2 \<and> ?h3 \<and> ?c1 \<and> ?x \<and> ?h4 \<and> ?c2")
proof -
  have h1: ?h1 by code_simp
  have h2: ?h2 by code_simp
  have h3: ?h3 by code_simp
  have x: ?x by code_simp
  have h4: ?h4 by code_simp
  from dataPointsCollected_counts_grouped_batch [OF h1, of sampleStore] h2 h3
  have c1: ?c1 by blast
  from dataPointsCollected_counts_grouped_batch [OF h4, of sampleStore]
  have c2: ?c2 by blast
  from h1 h2 h3 c1 x h4 c2 show ?thesis by blast
qed

text \<open>A batch of one reading whose date does not parse is collected successfully with
  \<open>dataPointsCollected = 0\<close>, not 1: the reading belongs to no month group.\<close>

theorem dataPointsCollected_batch_size_counterexample:
  "fetchTrafficData (sampleEnv unparseableFetch [sampleDevice ''1'']) (dc_id (sampleDevice ''1''))
     = Inr [reading ''n/a'' 0 5]
   \<and> success (snd (collectSingleDevice (sampleEnv unparseableFetch [sampleDevice ''1''])
        emptyFs (sampleDevice ''1'')))
   \<and> dataPointsCollected (snd (collectSingleDevice (sampleEnv unparseableFetch [sampleDevice ''1''])
        emptyFs (sampleDevice ''1''))) \<noteq> length [reading ''n/a'' 0 5]"
  by code_simp

end
